theory Spec2Isabelle
  imports Complex_Main
begin

section \<open>Values of the source language\<close>

text \<open>
  The three request handlers of the repository (the decision handler
  \<^verbatim>\<open>post-to-moltbook\<close>, the scheduled poll and the regeneration handler) are
  embedded as functions over an explicit store. A JavaScript value that may be
  \<^verbatim>\<open>undefined\<close> or \<^verbatim>\<open>null\<close> is an \<open>option\<close>; a time is the number of
  milliseconds since the epoch, as \<^verbatim>\<open>Date.now()\<close> gives it.

  What the embedding fixes: a handler reads the clock once (every timestamp it writes
  is that reading); the store carries out every read and every update it is given
  (the handlers ignore the errors of both), while an insert may be refused; a
  request body is already parsed into its members.
\<close>

type_synonym timestamp = int

text \<open>Truthiness of an optional string: \<^verbatim>\<open>undefined\<close>, \<^verbatim>\<open>null\<close> and
  the empty string are falsy.\<close>

definition truthy :: "string option \<Rightarrow> bool" where
  "truthy v = (case v of None \<Rightarrow> False | Some s \<Rightarrow> s \<noteq> [])"

text \<open>The operator \<^verbatim>\<open>a || b\<close> on optional strings.\<close>

definition or_else :: "string option \<Rightarrow> string option \<Rightarrow> string option" where
  "or_else a b = (if truthy a then a else b)"

section \<open>Data model\<close>

datatype draft_type = Reply | Post

datatype status = Pending | Approved | Edited | Rejected | Superseded | Posted

text \<open>The interface \<^verbatim>\<open>MoltbookPost\<close>: the members the handlers read.\<close>

record moltbook_post =
  post_id :: string
  post_title :: string
  post_content :: string
  post_submolt :: string
  post_author :: string

text \<open>The \<^verbatim>\<open>context\<close> column of a draft: the snapshot of the post replied to
  (replies), the trigger (original posts) and the generation time.\<close>

record draft_context =
  original_post :: "moltbook_post option"
  generated_at :: timestamp
  trigger :: "string option"

text \<open>A row of the table \<^verbatim>\<open>post_queue\<close>.\<close>

record draft =
  row_id :: string
  dtype :: draft_type
  title :: "string option"
  content :: "string option"
  submolt :: "string option"
  reply_to_post_id :: "string option"
  reply_to_comment_id :: "string option"
  ctx :: draft_context
  generation_attempt :: int
  root_draft_id :: "string option"
  status :: status
  final_content :: "string option"
  moltbook_post_id :: "string option"
  moltbook_comment_id :: "string option"
  decided_at :: "timestamp option"
  posted_at :: "timestamp option"
  created_at :: timestamp

text \<open>The columns an \<^verbatim>\<open>insert\<close> into \<^verbatim>\<open>post_queue\<close> supplies.\<close>

record draft_insert =
  ins_type :: draft_type
  ins_title :: "string option"
  ins_content :: "string option"
  ins_submolt :: "string option"
  ins_reply_to_post_id :: "string option"
  ins_reply_to_comment_id :: "string option"
  ins_context :: draft_context
  ins_generation_attempt :: "int option"
  ins_root_draft_id :: "string option"

text \<open>The \<^verbatim>\<open>details\<close> object of an activity-log entry, one constructor per
  shape the handlers write.\<close>

datatype log_details =
    NoDetails
  | DecisionDetails "string option" bool
  | GeneratedDetails string
  | PostedDetails "string option"
  | RegeneratedDetails "string option" int "string option"

record log_entry =
  action :: string
  post_queue_id :: "string option"
  details :: log_details

text \<open>The single row of \<^verbatim>\<open>agent_config\<close>.\<close>

record config =
  persona :: "string option"
  topics :: "string list"
  target_submolts :: "string list"
  auto_post :: bool
  post_frequency_minutes :: int
  api_key :: "string option"

section \<open>Collaborators\<close>

text \<open>
  A call of the text-generation service is identified by the prompt template and the
  values spliced into it; the literal wording of the templates is not modelled.
\<close>

datatype chat_request =
    CheckRelevance "string list" moltbook_post
  | GenerateReply "string option" moltbook_post
  | GenerateOriginalPost "string option" "string option"
  | RegenerateReply "string option" int "string option" draft_context "(int \<times> string option) list"
  | RegeneratePost "string option" int "string option" "string option" "(int \<times> string option) list"

datatype chat_response = ChatOk string | ChatFail nat string

text \<open>Requests of the publish API: a top-level post (bearer key, submolt, title,
  content) or a comment (bearer key, post replied to, content).\<close>

datatype pub_request =
    CreatePost string "string option" "string option" "string option"
  | CreateComment string "string option" "string option"

text \<open>The body of a publish response read as JSON: not parseable, or an object
  whose \<^verbatim>\<open>id\<close> member may be missing.\<close>

datatype json_body = NotJson | JsonId "string option"

record pub_response =
  ok :: bool
  http_status :: nat
  body_text :: string
  body_json :: json_body

datatype feed_response = FeedOk "moltbook_post list" | FeedFail

text \<open>The result of \<^verbatim>\<open>JSON.parse\<close> on a generated post: its \<^verbatim>\<open>title\<close> and
  \<^verbatim>\<open>content\<close> members.\<close>

record parsed =
  parsed_title :: "string option"
  parsed_content :: "string option"

datatype call = ChatCall chat_request | PublishCall pub_request

text \<open>
  Everything a handler reads from outside the store: the secret
  \<^verbatim>\<open>OPENAI_API_KEY\<close>, the three remote services, \<^verbatim>\<open>JSON.parse\<close>, the value of
  \<^verbatim>\<open>Math.floor(Math.random() * n)\<close>, the clock, and the identifier the store
  assigns to an inserted draft (\<open>None\<close> when the insert is refused).
\<close>

record env =
  openai_api_key :: "string option"
  gen :: "chat_request \<Rightarrow> chat_response"
  feed :: "string \<Rightarrow> feed_response"
  publish :: "pub_request \<Rightarrow> pub_response"
  parse_json :: "string \<Rightarrow> parsed option"
  random_index :: nat
  now :: timestamp
  new_id :: "draft list \<Rightarrow> string option"

text \<open>The store, and the trace of the calls made to the text-generation and publish
  services (a ghost field: no handler reads it).\<close>

record world =
  agent_config :: "config option"
  post_queue :: "draft list"
  seen_posts :: "string list"
  activity_log :: "log_entry list"
  outbound :: "call list"

datatype error =
    DraftIdRequired
  | InvalidAction
  | DraftNotFound
  | AlreadyProcessed status
  | MoltbookKeyNotConfigured
  | MoltbookApiError nat string
  | OpenAIKeyNotConfigured
  | ConfigNotFound
  | OpenAIError nat string
  | JsonSyntaxError
  | InsertError

text \<open>What a handler answers: the CORS preflight reply, a success body, or the
  status-500 reply of the \<^verbatim>\<open>catch\<close> block.\<close>

datatype 'a response = Preflight | Success 'a | Failure error

definition respond :: "(error + 'a) \<times> world \<Rightarrow> 'a response \<times> world" where
  "respond r = (case r of (Inl e, w) \<Rightarrow> (Failure e, w) | (Inr x, w) \<Rightarrow> (Success x, w))"

section \<open>Store operations\<close>

text \<open>\<^verbatim>\<open>.eq("id", i)\<close> on \<^verbatim>\<open>post_queue\<close>.\<close>

definition eq_id :: "string option \<Rightarrow> draft \<Rightarrow> bool" where
  "eq_id i d = (Some (row_id d) = i)"

text \<open>\<^verbatim>\<open>.select("*").eq("id", i).single()\<close>: a row only when exactly one matches.\<close>

definition select_single :: "string option \<Rightarrow> draft list \<Rightarrow> draft option" where
  "select_single i rows = (case filter (eq_id i) rows of [d] \<Rightarrow> Some d | _ \<Rightarrow> None)"

text \<open>\<^verbatim>\<open>.update(f).eq("id", i)\<close>: every matching row is updated.\<close>

definition update_rows :: "string option \<Rightarrow> (draft \<Rightarrow> draft) \<Rightarrow> world \<Rightarrow> world" where
  "update_rows i f w = w\<lparr>post_queue := map (\<lambda>d. if eq_id i d then f d else d) (post_queue w)\<rparr>"

definition log_activity :: "log_entry \<Rightarrow> world \<Rightarrow> world" where
  "log_activity e w = w\<lparr>activity_log := activity_log w @ [e]\<rparr>"

text \<open>Modelled from the spec: the table definition of \<^verbatim>\<open>post_queue\<close> is not part of
  the sources. A created draft has status pending and attempt 0 unless the insert
  says otherwise, its creation time is the time of the insert, and the columns the
  insert leaves out are null.\<close>

definition new_row :: "string \<Rightarrow> timestamp \<Rightarrow> draft_insert \<Rightarrow> draft" where
  "new_row i t r =
     \<lparr>row_id = i, dtype = ins_type r, title = ins_title r, content = ins_content r,
      submolt = ins_submolt r, reply_to_post_id = ins_reply_to_post_id r,
      reply_to_comment_id = ins_reply_to_comment_id r, ctx = ins_context r,
      generation_attempt = (case ins_generation_attempt r of None \<Rightarrow> 0 | Some n \<Rightarrow> n),
      root_draft_id = ins_root_draft_id r, status = Pending, final_content = None,
      moltbook_post_id = None, moltbook_comment_id = None, decided_at = None,
      posted_at = None, created_at = t\<rparr>"

text \<open>\<^verbatim>\<open>.insert(r).select().single()\<close>: the store assigns the identifier; the insert
  is refused when the store gives none or the identifier is already taken.\<close>

definition insert_draft :: "env \<Rightarrow> draft_insert \<Rightarrow> world \<Rightarrow> draft option \<times> world" where
  "insert_draft e r w =
     (case new_id e (post_queue w) of
        None \<Rightarrow> (None, w)
      | Some i \<Rightarrow>
          if i \<in> row_id ` set (post_queue w) then (None, w)
          else (let d = new_row i (now e) r
                in (Some d, w\<lparr>post_queue := post_queue w @ [d]\<rparr>)))"

section \<open>The decision handler\<close>

text \<open>The body of a successful decision.\<close>

record decision =
  decision_action :: string
  decision_moltbook_id :: "string option"

text \<open>The request the handler sends for a draft: \<^verbatim>\<open>POST /posts\<close> for a draft of
  type post, \<^verbatim>\<open>POST /posts/<id>/comments\<close> otherwise.\<close>

definition publish_request :: "string \<Rightarrow> draft \<Rightarrow> string option \<Rightarrow> string option \<Rightarrow> pub_request" where
  "publish_request key d t c =
     (if dtype d = Post then CreatePost key (submolt d) t c
      else CreateComment key (reply_to_post_id d) c)"

text \<open>\<^verbatim>\<open>fetch\<close> to the publish API, recorded in the trace.\<close>

definition fetch_publish :: "env \<Rightarrow> pub_request \<Rightarrow> world \<Rightarrow> pub_response \<times> world" where
  "fetch_publish e r w = (publish e r, w\<lparr>outbound := outbound w @ [PublishCall r]\<rparr>)"

text \<open>The computed key of the update: \<^verbatim>\<open>moltbook_post_id\<close> when the draft that
  was read is a post, \<^verbatim>\<open>moltbook_comment_id\<close> otherwise. A value that is
  \<^verbatim>\<open>undefined\<close> is dropped when the update is serialised, which leaves the column
  as it is.\<close>

definition set_remote_id :: "draft_type \<Rightarrow> string option \<Rightarrow> draft \<Rightarrow> draft" where
  "set_remote_id ty m r =
     (case m of
        None \<Rightarrow> r
      | Some i \<Rightarrow> if ty = Post then r\<lparr>moltbook_post_id := Some i\<rparr>
                  else r\<lparr>moltbook_comment_id := Some i\<rparr>)"

definition decide :: "env \<Rightarrow> world \<Rightarrow> string option \<Rightarrow> string option \<Rightarrow> string option \<Rightarrow>
    string option \<Rightarrow> (error + decision) \<times> world" where
  "decide e w draft_id act edited_content edited_title =
     (if \<not> truthy draft_id then (Inl DraftIdRequired, w)
      else if act \<notin> set [Some ''approve'', Some ''reject'', Some ''edit'']
        then (Inl InvalidAction, w)
      else (case select_single draft_id (post_queue w) of
          None \<Rightarrow> (Inl DraftNotFound, w)
        | Some d \<Rightarrow>
            if status d \<noteq> Pending then (Inl (AlreadyProcessed (status d)), w)
            else if act = Some ''reject'' then
              (Inr \<lparr>decision_action = ''rejected'', decision_moltbook_id = None\<rparr>,
               log_activity \<lparr>action = ''rejected'', post_queue_id = draft_id, details = NoDetails\<rparr>
                 (update_rows draft_id (\<lambda>r. r\<lparr>status := Rejected, decided_at := Some (now e)\<rparr>) w))
            else (case (case agent_config w of None \<Rightarrow> None | Some c \<Rightarrow> api_key c) of
                None \<Rightarrow> (Inl MoltbookKeyNotConfigured, w)
              | Some k \<Rightarrow>
                  if k = [] then (Inl MoltbookKeyNotConfigured, w)
                  else (let finalContent = or_else edited_content (content d);
                            finalTitle = or_else edited_title (title d);
                            wasEdited = (truthy edited_content \<or> truthy edited_title)
                        in (case fetch_publish e (publish_request k d finalTitle finalContent) w of
                              (resp, w1) \<Rightarrow>
                                if \<not> ok resp
                                  then (Inl (MoltbookApiError (http_status resp) (body_text resp)), w1)
                                else (case body_json resp of
                                    NotJson \<Rightarrow> (Inl JsonSyntaxError, w1)
                                  | JsonId moltbookId \<Rightarrow>
                                      (Inr \<lparr>decision_action = (if wasEdited then ''edited'' else ''approved''),
                                            decision_moltbook_id = moltbookId\<rparr>,
                                       log_activity
                                         \<lparr>action = (if wasEdited then ''edited'' else ''approved''),
                                          post_queue_id = draft_id,
                                          details = DecisionDetails moltbookId wasEdited\<rparr>
                                         (update_rows draft_id
                                            (\<lambda>r. set_remote_id (dtype d) moltbookId
                                               (r\<lparr>status := (if wasEdited then Edited else Approved),
                                                  final_content := (if wasEdited then finalContent else None),
                                                  decided_at := Some (now e),
                                                  posted_at := Some (now e)\<rparr>)) w1))))))))"

text \<open>The handler: the CORS preflight is answered before the body is read; any error
  thrown in the body becomes the status-500 reply.\<close>

definition serve_post_to_moltbook :: "env \<Rightarrow> world \<Rightarrow> string \<Rightarrow> string option \<Rightarrow> string option \<Rightarrow>
    string option \<Rightarrow> string option \<Rightarrow> decision response \<times> world" where
  "serve_post_to_moltbook e w method draft_id act edited_content edited_title =
     (if method = ''OPTIONS'' then (Preflight, w)
      else respond (decide e w draft_id act edited_content edited_title))"

section \<open>The scheduled poll\<close>

text \<open>\<^verbatim>\<open>openaiChat\<close>: a response that is not a success throws; otherwise the text of
  the first choice is returned. The call is recorded in the trace.\<close>

definition openaiChat :: "env \<Rightarrow> chat_request \<Rightarrow> world \<Rightarrow> (error + string) \<times> world" where
  "openaiChat e r w =
     (let w1 = w\<lparr>outbound := outbound w @ [ChatCall r]\<rparr>
      in (case gen e r of
            ChatFail s t \<Rightarrow> (Inl (OpenAIError s t), w1)
          | ChatOk c \<Rightarrow> (Inr c, w1)))"

text \<open>\<^verbatim>\<open>toLowerCase\<close> on the letters A to Z; no other character lowers to one of
  \<open>y\<close>, \<open>e\<close>, \<open>s\<close>.\<close>

definition toLowerCase_char :: "char \<Rightarrow> char" where
  "toLowerCase_char c =
     (if c \<in> set ''ABCDEFGHIJKLMNOPQRSTUVWXYZ'' then char_of (of_char c + (32::nat)) else c)"

definition toLowerCase :: "string \<Rightarrow> string" where
  "toLowerCase s = map toLowerCase_char s"

text \<open>\<^verbatim>\<open>startsWith\<close> and \<^verbatim>\<open>includes\<close> of strings.\<close>

fun startsWith :: "string \<Rightarrow> string \<Rightarrow> bool" where
  "startsWith s [] = True"
| "startsWith [] (p # ps) = False"
| "startsWith (c # cs) (p # ps) = (c = p \<and> startsWith cs ps)"

fun includes_str :: "string \<Rightarrow> string \<Rightarrow> bool" where
  "includes_str [] p = (p = [])"
| "includes_str (c # cs) p = (startsWith (c # cs) p \<or> includes_str cs p)"

definition checkRelevance :: "env \<Rightarrow> moltbook_post \<Rightarrow> config \<Rightarrow> world \<Rightarrow> (error + bool) \<times> world" where
  "checkRelevance e p cfg w =
     (case openaiChat e (CheckRelevance (topics cfg) p) w of
        (Inl er, w1) \<Rightarrow> (Inl er, w1)
      | (Inr resp, w1) \<Rightarrow> (Inr (includes_str (toLowerCase resp) ''yes''), w1))"

definition generateReply :: "env \<Rightarrow> moltbook_post \<Rightarrow> config \<Rightarrow> world \<Rightarrow> (error + string) \<times> world" where
  "generateReply e p cfg w = openaiChat e (GenerateReply (persona cfg) p) w"

text \<open>Indexing an array: \<^verbatim>\<open>undefined\<close> out of range.\<close>

definition index_opt :: "'a list \<Rightarrow> nat \<Rightarrow> 'a option" where
  "index_opt xs i = (if i < length xs then Some (xs ! i) else None)"

record original_post_content =
  op_title :: "string option"
  op_content :: "string option"
  op_submolt :: "string option"

definition generateOriginalPost :: "env \<Rightarrow> config \<Rightarrow> world \<Rightarrow> (error + original_post_content) \<times> world" where
  "generateOriginalPost e cfg w =
     (let sm = index_opt (target_submolts cfg) (random_index e)
      in (case openaiChat e (GenerateOriginalPost (persona cfg) sm) w of
            (Inl er, w1) \<Rightarrow> (Inl er, w1)
          | (Inr resp, w1) \<Rightarrow>
              (case parse_json e resp of
                 None \<Rightarrow> (Inl JsonSyntaxError, w1)
               | Some p \<Rightarrow>
                   (Inr \<lparr>op_title = parsed_title p, op_content = parsed_content p, op_submolt = sm\<rparr>, w1))))"

text \<open>\<^verbatim>\<open>postToMoltbook\<close>: the body of the response is read as JSON before the status
  is looked at; the draft is updated and the activity logged only when the response
  is a success.\<close>

definition postToMoltbook :: "env \<Rightarrow> string \<Rightarrow> string \<Rightarrow> world \<Rightarrow> (error + unit) \<times> world" where
  "postToMoltbook e queueId apiKey w =
     (case select_single (Some queueId) (post_queue w) of
        None \<Rightarrow> (Inr (), w)
      | Some d \<Rightarrow>
          (case fetch_publish e
                  (publish_request apiKey d (title d) (or_else (final_content d) (content d))) w of
             (resp, w1) \<Rightarrow>
               (case body_json resp of
                  NotJson \<Rightarrow> (Inl JsonSyntaxError, w1)
                | JsonId moltbookId \<Rightarrow>
                    if ok resp then
                      (Inr (),
                       log_activity
                         \<lparr>action = ''posted'', post_queue_id = Some queueId,
                          details = PostedDetails moltbookId\<rparr>
                         (update_rows (Some queueId)
                            (\<lambda>r. set_remote_id (dtype d) moltbookId
                               (r\<lparr>status := Posted, posted_at := Some (now e)\<rparr>)) w1))
                    else (Inr (), w1))))"

text \<open>The loop over \<^verbatim>\<open>config.target_submolts\<close>: a fetch that fails contributes no
  post.\<close>

fun fetch_posts :: "env \<Rightarrow> string list \<Rightarrow> moltbook_post list" where
  "fetch_posts e [] = []"
| "fetch_posts e (s # ss) =
     (case feed e s of FeedOk ps \<Rightarrow> ps | FeedFail \<Rightarrow> []) @ fetch_posts e ss"

text \<open>\<^verbatim>\<open>upsert\<close> into \<^verbatim>\<open>seen_posts\<close>, keyed by the post identifier.\<close>

definition mark_seen :: "string \<Rightarrow> world \<Rightarrow> world" where
  "mark_seen i w = (if i \<in> set (seen_posts w) then w else w\<lparr>seen_posts := seen_posts w @ [i]\<rparr>)"

text \<open>The loop over \<^verbatim>\<open>newPosts.slice(0, 5)\<close>; the accumulator is
  \<^verbatim>\<open>postsToReply\<close>.\<close>

fun relevance_loop :: "env \<Rightarrow> config \<Rightarrow> moltbook_post list \<Rightarrow> moltbook_post list \<Rightarrow> world \<Rightarrow>
    (error + moltbook_post list) \<times> world" where
  "relevance_loop e cfg [] postsToReply w = (Inr postsToReply, w)"
| "relevance_loop e cfg (p # ps) postsToReply w =
     (case checkRelevance e p cfg w of
        (Inl er, w1) \<Rightarrow> (Inl er, w1)
      | (Inr isRelevant, w1) \<Rightarrow>
          relevance_loop e cfg ps (if isRelevant then postsToReply @ [p] else postsToReply)
            (mark_seen (post_id p) w1))"

definition reply_insert :: "env \<Rightarrow> moltbook_post \<Rightarrow> string \<Rightarrow> draft_insert" where
  "reply_insert e p c =
     \<lparr>ins_type = Reply, ins_title = None, ins_content = Some c,
      ins_submolt = Some (post_submolt p), ins_reply_to_post_id = Some (post_id p),
      ins_reply_to_comment_id = None,
      ins_context = \<lparr>original_post = Some p, generated_at = now e, trigger = None\<rparr>,
      ins_generation_attempt = None, ins_root_draft_id = None\<rparr>"

text \<open>The loop over \<^verbatim>\<open>postsToReply\<close>; the accumulator is \<^verbatim>\<open>drafts\<close>.\<close>

fun reply_loop :: "env \<Rightarrow> config \<Rightarrow> string \<Rightarrow> moltbook_post list \<Rightarrow> draft list \<Rightarrow> world \<Rightarrow>
    (error + draft list) \<times> world" where
  "reply_loop e cfg k [] drafts w = (Inr drafts, w)"
| "reply_loop e cfg k (p # ps) drafts w =
     (case generateReply e p cfg w of
        (Inl er, w1) \<Rightarrow> (Inl er, w1)
      | (Inr c, w1) \<Rightarrow>
          (case insert_draft e (reply_insert e p c) w1 of
             (None, w2) \<Rightarrow> reply_loop e cfg k ps drafts w2
           | (Some inserted, w2) \<Rightarrow>
               (let w3 = update_rows (Some (row_id inserted))
                           (\<lambda>r. r\<lparr>root_draft_id := Some (row_id inserted)\<rparr>) w2;
                    w4 = log_activity
                           \<lparr>action = ''generated'', post_queue_id = Some (row_id inserted),
                            details = GeneratedDetails (post_id p)\<rparr> w3
                in if auto_post cfg then
                     (case postToMoltbook e (row_id inserted) k w4 of
                        (Inl er, w5) \<Rightarrow> (Inl er, w5)
                      | (Inr u, w5) \<Rightarrow> reply_loop e cfg k ps (drafts @ [inserted]) w5)
                   else reply_loop e cfg k ps (drafts @ [inserted]) w4)))"

text \<open>The creation time of the most recent draft of type post
  (\<^verbatim>\<open>order("created_at", descending).limit(1)\<close>).\<close>

definition lastPostTime :: "draft list \<Rightarrow> timestamp option" where
  "lastPostTime rows =
     (case filter (\<lambda>d. dtype d = Post) rows of
        [] \<Rightarrow> None
      | d # ds \<Rightarrow> Some (fold max (map created_at ds) (created_at d)))"

text \<open>\<^verbatim>\<open>minutesSinceLastPost\<close>: the elapsed milliseconds divided by 60000, or
  \<^verbatim>\<open>Infinity\<close> (here \<open>None\<close>) when there is no such draft. The quotient is taken
  exactly.\<close>

definition minutesSinceLastPost :: "timestamp \<Rightarrow> draft list \<Rightarrow> rat option" where
  "minutesSinceLastPost t rows =
     (case lastPostTime rows of None \<Rightarrow> None | Some l \<Rightarrow> Some (rat_of_int (t - l) / 60000))"

text \<open>\<^verbatim>\<open>minutesSinceLastPost >= config.post_frequency_minutes\<close>.\<close>

definition cooldown_met :: "rat option \<Rightarrow> int \<Rightarrow> bool" where
  "cooldown_met m freq = (case m of None \<Rightarrow> True | Some q \<Rightarrow> rat_of_int freq \<le> q)"

definition original_insert :: "env \<Rightarrow> original_post_content \<Rightarrow> draft_insert" where
  "original_insert e p =
     \<lparr>ins_type = Post, ins_title = op_title p, ins_content = op_content p,
      ins_submolt = op_submolt p, ins_reply_to_post_id = None,
      ins_reply_to_comment_id = None,
      ins_context = \<lparr>original_post = None, generated_at = now e, trigger = Some ''scheduled''\<rparr>,
      ins_generation_attempt = None, ins_root_draft_id = None\<rparr>"

text \<open>The last step of a run: an original post when the cooldown has passed.\<close>

definition original_post_step :: "env \<Rightarrow> config \<Rightarrow> string \<Rightarrow> draft list \<Rightarrow> world \<Rightarrow>
    (error + draft list) \<times> world" where
  "original_post_step e cfg k drafts w =
     (if cooldown_met (minutesSinceLastPost (now e) (post_queue w)) (post_frequency_minutes cfg) then
        (case generateOriginalPost e cfg w of
           (Inl er, w1) \<Rightarrow> (Inl er, w1)
         | (Inr originalPost, w1) \<Rightarrow>
             (case insert_draft e (original_insert e originalPost) w1 of
                (None, w2) \<Rightarrow> (Inr drafts, w2)
              | (Some inserted, w2) \<Rightarrow>
                  (let w3 = update_rows (Some (row_id inserted))
                              (\<lambda>r. r\<lparr>root_draft_id := Some (row_id inserted)\<rparr>) w2
                   in if auto_post cfg then
                        (case postToMoltbook e (row_id inserted) k w3 of
                           (Inl er, w4) \<Rightarrow> (Inl er, w4)
                         | (Inr u, w4) \<Rightarrow> (Inr (drafts @ [inserted]), w4))
                      else (Inr (drafts @ [inserted]), w3))))
      else (Inr drafts, w))"

record poll_summary =
  posts_checked :: nat
  drafts_created :: nat
  auto_posted :: bool

definition newPosts :: "env \<Rightarrow> config \<Rightarrow> world \<Rightarrow> moltbook_post list" where
  "newPosts e cfg w =
     filter (\<lambda>p. post_id p \<notin> set (seen_posts w)) (fetch_posts e (target_submolts cfg))"

definition poll :: "env \<Rightarrow> world \<Rightarrow> (error + poll_summary) \<times> world" where
  "poll e w =
     (if \<not> truthy (openai_api_key e) then (Inl OpenAIKeyNotConfigured, w)
      else (case agent_config w of
          None \<Rightarrow> (Inl ConfigNotFound, w)
        | Some cfg \<Rightarrow>
            (case api_key cfg of
               None \<Rightarrow> (Inl MoltbookKeyNotConfigured, w)
             | Some k \<Rightarrow>
                 if k = [] then (Inl MoltbookKeyNotConfigured, w)
                 else (case relevance_loop e cfg (take 5 (newPosts e cfg w)) [] w of
                     (Inl er, w1) \<Rightarrow> (Inl er, w1)
                   | (Inr postsToReply, w1) \<Rightarrow>
                       (case reply_loop e cfg k postsToReply [] w1 of
                          (Inl er, w2) \<Rightarrow> (Inl er, w2)
                        | (Inr drafts, w2) \<Rightarrow>
                            (case original_post_step e cfg k drafts w2 of
                               (Inl er, w3) \<Rightarrow> (Inl er, w3)
                             | (Inr drafts', w3) \<Rightarrow>
                                 (Inr \<lparr>posts_checked = length (newPosts e cfg w),
                                       drafts_created = length drafts',
                                       auto_posted = auto_post cfg\<rparr>, w3)))))))"

definition serve_poll :: "env \<Rightarrow> world \<Rightarrow> string \<Rightarrow> poll_summary response \<times> world" where
  "serve_poll e w method =
     (if method = ''OPTIONS'' then (Preflight, w) else respond (poll e w))"

section \<open>The regeneration handler\<close>

text \<open>\<^verbatim>\<open>previousAttempts\<close>: attempt number and content of the drafts of the chain,
  by ascending attempt number.\<close>

definition previousAttempts :: "string option \<Rightarrow> draft list \<Rightarrow> (int \<times> string option) list" where
  "previousAttempts rootId rows =
     map (\<lambda>d. (generation_attempt d, content d))
       (sort_key generation_attempt (filter (\<lambda>d. root_draft_id d = rootId) rows))"

text \<open>The generation step: a reply is the text returned; a post is parsed as JSON,
  and the whole text is the content when it does not parse. The result is
  \<^verbatim>\<open>(newContent, newTitle)\<close>.\<close>

definition regenerate_content :: "env \<Rightarrow> draft \<Rightarrow> string option \<Rightarrow> int \<Rightarrow> string option \<Rightarrow>
    (int \<times> string option) list \<Rightarrow> world \<Rightarrow> (error + string option \<times> string option) \<times> world" where
  "regenerate_content e original pers attemptNumber feedback previous w =
     (if dtype original = Reply then
        (case openaiChat e
                (RegenerateReply (or_else pers (Some ''You are a helpful AI agent.'')) attemptNumber
                   (or_else feedback None) (ctx original) previous) w of
           (Inl er, w1) \<Rightarrow> (Inl er, w1)
         | (Inr resp, w1) \<Rightarrow> (Inr (Some resp, None), w1))
      else
        (case openaiChat e
                (RegeneratePost (or_else pers (Some ''You are a helpful AI agent.'')) attemptNumber
                   (or_else feedback None) (submolt original) previous) w of
           (Inl er, w1) \<Rightarrow> (Inl er, w1)
         | (Inr resp, w1) \<Rightarrow>
             (case parse_json e resp of
                None \<Rightarrow> (Inr (Some resp, None), w1)
              | Some p \<Rightarrow> (Inr (parsed_content p, parsed_title p), w1))))"

definition regenerate :: "env \<Rightarrow> world \<Rightarrow> string option \<Rightarrow> string option \<Rightarrow> (error + draft) \<times> world" where
  "regenerate e w draft_id feedback =
     (if \<not> truthy draft_id then (Inl DraftIdRequired, w)
      else if \<not> truthy (openai_api_key e) then (Inl OpenAIKeyNotConfigured, w)
      else (case select_single draft_id (post_queue w) of
          None \<Rightarrow> (Inl DraftNotFound, w)
        | Some original \<Rightarrow>
            (let pers = (case agent_config w of None \<Rightarrow> None | Some c \<Rightarrow> persona c);
                 rootId = or_else (root_draft_id original) draft_id;
                 previous = previousAttempts rootId (post_queue w);
                 attemptNumber = generation_attempt original + 1
             in (case regenerate_content e original pers attemptNumber feedback previous w of
                   (Inl er, w1) \<Rightarrow> (Inl er, w1)
                 | (Inr (newContent, newTitle), w1) \<Rightarrow>
                     (let w2 = update_rows draft_id
                                 (\<lambda>r. r\<lparr>status := Superseded, decided_at := Some (now e)\<rparr>) w1
                      in (case insert_draft e
                                 \<lparr>ins_type = dtype original,
                                  ins_title = or_else newTitle (title original),
                                  ins_content = newContent,
                                  ins_submolt = submolt original,
                                  ins_reply_to_post_id = reply_to_post_id original,
                                  ins_reply_to_comment_id = reply_to_comment_id original,
                                  ins_context = ctx original,
                                  ins_generation_attempt = Some attemptNumber,
                                  ins_root_draft_id = rootId\<rparr> w2 of
                            (None, w3) \<Rightarrow> (Inl InsertError, w3)
                          | (Some newDraft, w3) \<Rightarrow>
                              (Inr newDraft,
                               log_activity
                                 \<lparr>action = ''regenerated'', post_queue_id = Some (row_id newDraft),
                                  details = RegeneratedDetails draft_id attemptNumber
                                              (or_else feedback None)\<rparr> w3)))))))"

definition serve_regenerate :: "env \<Rightarrow> world \<Rightarrow> string \<Rightarrow> string option \<Rightarrow> string option \<Rightarrow>
    draft response \<times> world" where
  "serve_regenerate e w method draft_id feedback =
     (if method = ''OPTIONS'' then (Preflight, w) else respond (regenerate e w draft_id feedback))"

section \<open>Traces and frames\<close>

text \<open>The calls a handler added to the trace between two states of the store.\<close>

definition new_calls :: "world \<Rightarrow> world \<Rightarrow> call list" where
  "new_calls w w' = drop (length (outbound w)) (outbound w')"

text \<open>The creation times of the drafts of type post, in queue order.\<close>

definition post_times :: "draft list \<Rightarrow> timestamp list" where
  "post_times rows = map created_at (filter (\<lambda>d. dtype d = Post) rows)"

text \<open>What a step leaves alone: the trace grows by calls that satisfy \<open>P\<close>; the
  seen-post ledger and the configuration are unchanged.\<close>

definition frame :: "(call \<Rightarrow> bool) \<Rightarrow> world \<Rightarrow> world \<Rightarrow> bool" where
  "frame P w w' \<longleftrightarrow>
     (\<exists>cs. outbound w' = outbound w @ cs \<and> list_all P cs)
     \<and> seen_posts w' = seen_posts w \<and> agent_config w' = agent_config w"

text \<open>Classes of calls: to the publish API; made while replying to one of the posts
  \<open>ps\<close>; the generation of an original post.\<close>

definition is_publish :: "call \<Rightarrow> bool" where
  "is_publish c = (case c of PublishCall r \<Rightarrow> True | ChatCall r \<Rightarrow> False)"

definition is_reply_call :: "moltbook_post list \<Rightarrow> call \<Rightarrow> bool" where
  "is_reply_call ps c =
     (case c of ChatCall (GenerateReply pers p) \<Rightarrow> p \<in> set ps | PublishCall r \<Rightarrow> True | _ \<Rightarrow> False)"

definition is_original_call :: "call \<Rightarrow> bool" where
  "is_original_call c =
     (case c of ChatCall (GenerateOriginalPost pers sm) \<Rightarrow> True | _ \<Rightarrow> False)"

text \<open>What the creation of a draft writes and no later update of a run touches: id,
  type, title, content, submolt, context, attempt number and creation time.\<close>

type_synonym core =
  "string \<times> draft_type \<times> string option \<times> string option \<times> string option \<times> draft_context \<times> int \<times> timestamp"

definition draft_core :: "draft \<Rightarrow> core" where
  "draft_core d =
     (row_id d, dtype d, title d, content d, submolt d, ctx d, generation_attempt d, created_at d)"

text \<open>The drafts of type post, in queue order, by what their creation wrote.\<close>

definition post_cores :: "draft list \<Rightarrow> core list" where
  "post_cores rows = map draft_core (filter (\<lambda>d. dtype d = Post) rows)"



text \<open>A step that adds no draft of type post, rewrites none, and drops no row.\<close>

definition rows_ext :: "world \<Rightarrow> world \<Rightarrow> bool" where
  "rows_ext w w' \<longleftrightarrow>
     post_cores (post_queue w') = post_cores (post_queue w)
     \<and> row_id ` set (post_queue w) \<subseteq> row_id ` set (post_queue w')"

section \<open>Example inputs\<close>

text \<open>A store with one pending reply draft \<open>d1\<close>, and collaborators that all
  answer with success.\<close>

definition ex_post :: moltbook_post where
  "ex_post = \<lparr>post_id = ''p1'', post_title = ''Hello'', post_content = ''On agents'',
     post_submolt = ''general'', post_author = ''alice''\<rparr>"

definition ex_draft :: draft where
  "ex_draft = \<lparr>row_id = ''d1'', dtype = Reply, title = None, content = Some ''A reply'',
      submolt = Some ''general'', reply_to_post_id = Some ''p1'', reply_to_comment_id = None,
      ctx = \<lparr>original_post = Some ex_post, generated_at = 1000, trigger = None\<rparr>,
      generation_attempt = 0, root_draft_id = Some ''d1'', status = Pending,
      final_content = None, moltbook_post_id = None, moltbook_comment_id = None,
      decided_at = None, posted_at = None, created_at = 1000\<rparr>"

definition ex_config :: config where
  "ex_config = \<lparr>persona = Some ''A curious agent'', topics = [''agents''],
     target_submolts = [''general''], auto_post = False, post_frequency_minutes = 60,
     api_key = Some ''mb-key''\<rparr>"

definition ex_world :: world where
  "ex_world = \<lparr>agent_config = Some ex_config, post_queue = [ex_draft], seen_posts = [],
     activity_log = [], outbound = []\<rparr>"

definition ex_env :: env where
  "ex_env = \<lparr>openai_api_key = Some ''sk'', gen = (\<lambda>r. ChatOk ''yes''),
     feed = (\<lambda>s. FeedOk [ex_post]),
     publish = (\<lambda>r. \<lparr>ok = True, http_status = 201, body_text = [], body_json = JsonId (Some ''m1'')\<rparr>),
     parse_json = (\<lambda>s. None), random_index = 0, now = 5000,
     new_id = (\<lambda>rows. Some (replicate (Suc (length rows)) CHR ''n''))\<rparr>"

text \<open>The same collaborators, with a publish API that answers 500 and a JSON error
  body.\<close>

definition ex_env_down :: env where
  "ex_env_down = ex_env\<lparr>publish :=
     (\<lambda>r. \<lparr>ok = False, http_status = 500, body_text = ''{}'', body_json = JsonId None\<rparr>)\<rparr>"

text \<open>The same store with no row in \<^verbatim>\<open>agent_config\<close>.\<close>

definition ex_world_no_config :: world where
  "ex_world_no_config = ex_world\<lparr>agent_config := None\<rparr>"

text \<open>The same store after the draft \<open>d1\<close> was rejected.\<close>

definition ex_world_rejected :: world where
  "ex_world_rejected = ex_world\<lparr>post_queue := [ex_draft\<lparr>status := Rejected, decided_at := Some 2000\<rparr>]\<rparr>"

text \<open>A store for the scheduled poll: one draft of type post created at time 400000;
  the poll runs at time 1000000, ten minutes later.\<close>

definition ex_post_draft :: draft where
  "ex_post_draft = \<lparr>row_id = ''d0'', dtype = Post, title = Some ''Thoughts'',
      content = Some ''An original post'', submolt = Some ''general'', reply_to_post_id = None,
      reply_to_comment_id = None,
      ctx = \<lparr>original_post = None, generated_at = 400000, trigger = Some ''scheduled''\<rparr>,
      generation_attempt = 0, root_draft_id = Some ''d0'', status = Pending,
      final_content = None, moltbook_post_id = None, moltbook_comment_id = None,
      decided_at = None, posted_at = None, created_at = 400000\<rparr>"

definition ex_world_poll :: world where
  "ex_world_poll = \<lparr>agent_config = Some ex_config, post_queue = [ex_post_draft], seen_posts = [],
     activity_log = [], outbound = []\<rparr>"

definition ex_world_auto :: world where
  "ex_world_auto = ex_world_poll\<lparr>agent_config := Some (ex_config\<lparr>auto_post := True\<rparr>)\<rparr>"

definition ex_env_later :: env where
  "ex_env_later = ex_env\<lparr>now := 1000000\<rparr>"

definition ex_env_later_down :: env where
  "ex_env_later_down = ex_env_down\<lparr>now := 1000000\<rparr>"

text \<open>A text-generation service that answers 503 to every call.\<close>

definition ex_env_gen_down :: env where
  "ex_env_gen_down = ex_env_later\<lparr>gen := (\<lambda>r. ChatFail 503 ''unavailable'')\<rparr>"



section \<open>Properties of the decision handler\<close>

lemmas ex_defs = ex_post_def ex_draft_def ex_config_def ex_world_def ex_env_def ex_env_down_def

lemmas decide_defs = serve_post_to_moltbook_def respond_def decide_def select_single_def eq_id_def
  truthy_def or_else_def update_rows_def log_activity_def fetch_publish_def publish_request_def
  set_remote_id_def

lemma filter_eq_id_map:
  assumes "\<And>d. row_id (f d) = row_id d"
  shows "filter (eq_id i) (map (\<lambda>d. if eq_id i d then f d else d) rows) = map f (filter (eq_id i) rows)"
  using assms by (induction rows) (auto simp: eq_id_def)

lemma select_single_update_rows:
  assumes "\<And>d. row_id (f d) = row_id d"
  shows "select_single i (post_queue (update_rows i f w)) = map_option f (select_single i (post_queue w))"
  using filter_eq_id_map[OF assms, of i "post_queue w"]
  by (auto simp: select_single_def update_rows_def split: list.splits)

lemma row_id_set_remote_id [simp]: "row_id (set_remote_id ty m r) = row_id r"
  by (simp add: set_remote_id_def split: option.splits)

lemma status_set_remote_id [simp]: "status (set_remote_id ty m r) = status r"
  by (simp add: set_remote_id_def split: option.splits)

lemma post_queue_log_activity [simp]: "post_queue (log_activity en w) = post_queue w"
  by (simp add: log_activity_def)

lemma decide_fails_unchanged:
  assumes "act \<notin> {Some ''approve'', Some ''reject'', Some ''edit''} \<or>
           select_single draft_id (post_queue w) = None \<or>
           (\<exists>d. select_single draft_id (post_queue w) = Some d \<and> status d \<noteq> Pending)"
  shows "\<exists>er. decide e w draft_id act ec et = (Inl er, w)"
  using assms by (auto simp: decide_def)

lemma decide_success_not_pending:
  assumes "decide e w draft_id act ec et = (Inr r, w')"
  shows "\<exists>d. select_single draft_id (post_queue w') = Some d \<and> status d \<noteq> Pending"
  using assms
  by (auto simp: decide_def Let_def fetch_publish_def select_single_update_rows
      split: if_splits option.splits prod.splits json_body.splits)

text \<open>
  C1. A decision request whose action is not one of approve, reject, edit, or whose
  draft is not found, or whose draft is not pending, is answered with an error and
  leaves the whole store, the draft included, as it was. After a successful decision
  on a draft id, a further decision on the same id (with any legal action) is
  answered with the "already processed" error and changes nothing.
\<close>

theorem decision_guard:
  "(method \<noteq> ''OPTIONS'' \<and>
      (act \<notin> {Some ''approve'', Some ''reject'', Some ''edit''} \<or>
       select_single draft_id (post_queue w) = None \<or>
       (\<exists>d. select_single draft_id (post_queue w) = Some d \<and> status d \<noteq> Pending))
     \<longrightarrow> (\<exists>er. serve_post_to_moltbook e w method draft_id act ec et = (Failure er, w)))
   \<and> (serve_post_to_moltbook e w method draft_id act ec et = (Success r, w') \<and>
        method' \<noteq> ''OPTIONS'' \<and> act' \<in> {Some ''approve'', Some ''reject'', Some ''edit''}
     \<longrightarrow> (\<exists>s. s \<noteq> Pending \<and>
            serve_post_to_moltbook e' w' method' draft_id act' ec' et'
              = (Failure (AlreadyProcessed s), w')))"
proof (intro conjI impI)
  assume a: "method \<noteq> ''OPTIONS'' \<and>
      (act \<notin> {Some ''approve'', Some ''reject'', Some ''edit''} \<or>
       select_single draft_id (post_queue w) = None \<or>
       (\<exists>d. select_single draft_id (post_queue w) = Some d \<and> status d \<noteq> Pending))"
  then obtain er where "decide e w draft_id act ec et = (Inl er, w)"
    using decide_fails_unchanged[of act draft_id w e ec et] by blast
  with a show "\<exists>er. serve_post_to_moltbook e w method draft_id act ec et = (Failure er, w)"
    by (simp add: serve_post_to_moltbook_def respond_def)
next
  assume a: "serve_post_to_moltbook e w method draft_id act ec et = (Success r, w') \<and>
        method' \<noteq> ''OPTIONS'' \<and> act' \<in> {Some ''approve'', Some ''reject'', Some ''edit''}"
  then have d: "decide e w draft_id act ec et = (Inr r, w')"
    by (auto simp: serve_post_to_moltbook_def respond_def split: if_splits prod.splits sum.splits)
  then obtain d where sel: "select_single draft_id (post_queue w') = Some d" and st: "status d \<noteq> Pending"
    using decide_success_not_pending by blast
  from d have t: "truthy draft_id"
    by (auto simp: decide_def split: if_splits)
  from a sel st t have "decide e' w' draft_id act' ec' et' = (Inl (AlreadyProcessed (status d)), w')"
    by (auto simp: decide_def)
  with a st show "\<exists>s. s \<noteq> Pending \<and>
            serve_post_to_moltbook e' w' method' draft_id act' ec' et'
              = (Failure (AlreadyProcessed s), w')"
    by (auto simp: serve_post_to_moltbook_def respond_def)
qed

theorem decision_guard_witness:
  "(\<exists>er. serve_post_to_moltbook ex_env ex_world ''POST'' (Some ''d1'') (Some ''publish'') None None
            = (Failure er, ex_world))
   \<and> (\<exists>s. s \<noteq> Pending \<and>
        serve_post_to_moltbook ex_env
          (snd (serve_post_to_moltbook ex_env ex_world ''POST'' (Some ''d1'') (Some ''reject'') None None))
          ''POST'' (Some ''d1'') (Some ''approve'') None None
        = (Failure (AlreadyProcessed s),
           snd (serve_post_to_moltbook ex_env ex_world ''POST'' (Some ''d1'') (Some ''reject'') None None)))"
proof (rule conjI)
  have h1: "''POST'' \<noteq> ''OPTIONS'' \<and>
      (Some ''publish'' \<notin> {Some ''approve'', Some ''reject'', Some ''edit''} \<or>
       select_single (Some ''d1'') (post_queue ex_world) = None \<or>
       (\<exists>d. select_single (Some ''d1'') (post_queue ex_world) = Some d \<and> status d \<noteq> Pending))"
    by simp
  show "\<exists>er. serve_post_to_moltbook ex_env ex_world ''POST'' (Some ''d1'') (Some ''publish'') None None
            = (Failure er, ex_world)"
    by (rule decision_guard [THEN conjunct1, THEN mp, OF h1])
next
  have h2: "serve_post_to_moltbook ex_env ex_world ''POST'' (Some ''d1'') (Some ''reject'') None None
      = (Success \<lparr>decision_action = ''rejected'', decision_moltbook_id = None\<rparr>,
         snd (serve_post_to_moltbook ex_env ex_world ''POST'' (Some ''d1'') (Some ''reject'') None None))
      \<and> ''POST'' \<noteq> ''OPTIONS'' \<and> Some ''approve'' \<in> {Some ''approve'', Some ''reject'', Some ''edit''}"
    by (simp add: decide_defs ex_defs)
  show "\<exists>s. s \<noteq> Pending \<and>
        serve_post_to_moltbook ex_env
          (snd (serve_post_to_moltbook ex_env ex_world ''POST'' (Some ''d1'') (Some ''reject'') None None))
          ''POST'' (Some ''d1'') (Some ''approve'') None None
        = (Failure (AlreadyProcessed s),
           snd (serve_post_to_moltbook ex_env ex_world ''POST'' (Some ''d1'') (Some ''reject'') None None))"
    by (rule decision_guard [THEN conjunct2, THEN mp, OF h2])
qed

text \<open>
  C2. An approve or edit decision on a pending draft whose publish call is answered
  with a non-success response commits nothing: the handler answers with the error
  of the publish API, the queue and the activity log are as before (the draft is
  still pending, with no remote id, \<open>decided_at\<close> or \<open>posted_at\<close> written), and only
  the trace of outbound calls has grown by the publish call.
\<close>

theorem publish_failure_keeps_pending:
  assumes "method \<noteq> ''OPTIONS''"
    and "act = Some ''approve'' \<or> act = Some ''edit''"
    and "truthy draft_id"
    and "select_single draft_id (post_queue w) = Some d"
    and "status d = Pending"
    and "agent_config w = Some c" and "api_key c = Some k" and "k \<noteq> []"
    and "req = publish_request k d (or_else et (title d)) (or_else ec (content d))"
    and "\<not> ok (publish e req)"
  shows "serve_post_to_moltbook e w method draft_id act ec et
           = (Failure (MoltbookApiError (http_status (publish e req)) (body_text (publish e req))),
              w\<lparr>outbound := outbound w @ [PublishCall req]\<rparr>)
         \<and> post_queue (snd (serve_post_to_moltbook e w method draft_id act ec et)) = post_queue w
         \<and> activity_log (snd (serve_post_to_moltbook e w method draft_id act ec et)) = activity_log w
         \<and> select_single draft_id
              (post_queue (snd (serve_post_to_moltbook e w method draft_id act ec et))) = Some d"
  using assms
  by (auto simp: serve_post_to_moltbook_def respond_def decide_def fetch_publish_def Let_def)

theorem publish_failure_keeps_pending_witness:
  "serve_post_to_moltbook ex_env_down ex_world ''POST'' (Some ''d1'') (Some ''approve'') None None
     = (Failure (MoltbookApiError 500 ''{}''),
        ex_world\<lparr>outbound := [PublishCall (CreateComment ''mb-key'' (Some ''p1'') (Some ''A reply''))]\<rparr>)
   \<and> select_single (Some ''d1'')
        (post_queue (snd (serve_post_to_moltbook ex_env_down ex_world ''POST'' (Some ''d1'')
           (Some ''approve'') None None))) = Some ex_draft"
proof -
  have r: "publish_request ''mb-key'' ex_draft (or_else None (title ex_draft)) (or_else None (content ex_draft))
      = CreateComment ''mb-key'' (Some ''p1'') (Some ''A reply'')"
    by (simp add: publish_request_def or_else_def truthy_def ex_draft_def)
  have p: "publish ex_env_down (CreateComment ''mb-key'' (Some ''p1'') (Some ''A reply''))
      = \<lparr>ok = False, http_status = 500, body_text = ''{}'', body_json = JsonId None\<rparr>"
    by (simp add: ex_env_down_def ex_env_def)
  have "serve_post_to_moltbook ex_env_down ex_world ''POST'' (Some ''d1'') (Some ''approve'') None None
           = (Failure (MoltbookApiError (http_status (publish ex_env_down (CreateComment ''mb-key'' (Some ''p1'') (Some ''A reply''))))
                 (body_text (publish ex_env_down (CreateComment ''mb-key'' (Some ''p1'') (Some ''A reply''))))),
              ex_world\<lparr>outbound := outbound ex_world @ [PublishCall (CreateComment ''mb-key'' (Some ''p1'') (Some ''A reply''))]\<rparr>)
         \<and> post_queue (snd (serve_post_to_moltbook ex_env_down ex_world ''POST'' (Some ''d1'') (Some ''approve'') None None)) = post_queue ex_world
         \<and> activity_log (snd (serve_post_to_moltbook ex_env_down ex_world ''POST'' (Some ''d1'') (Some ''approve'') None None)) = activity_log ex_world
         \<and> select_single (Some ''d1'')
              (post_queue (snd (serve_post_to_moltbook ex_env_down ex_world ''POST'' (Some ''d1'') (Some ''approve'') None None))) = Some ex_draft"
  proof (rule publish_failure_keeps_pending [where c = ex_config and k = "''mb-key''"])
    show "''POST'' \<noteq> ''OPTIONS''" by simp
    show "Some ''approve'' = Some ''approve'' \<or> Some ''approve'' = Some ''edit''" by simp
    show "truthy (Some ''d1'')" by (simp add: truthy_def)
    show "select_single (Some ''d1'') (post_queue ex_world) = Some ex_draft"
      by (simp add: select_single_def eq_id_def ex_world_def ex_draft_def)
    show "status ex_draft = Pending" by (simp add: ex_draft_def)
    show "agent_config ex_world = Some ex_config" by (simp add: ex_world_def)
    show "api_key ex_config = Some ''mb-key''" by (simp add: ex_config_def)
    show "''mb-key'' \<noteq> []" by simp
    show "CreateComment ''mb-key'' (Some ''p1'') (Some ''A reply'')
        = publish_request ''mb-key'' ex_draft (or_else None (title ex_draft)) (or_else None (content ex_draft))"
      by (simp add: r)
    show "\<not> ok (publish ex_env_down (CreateComment ''mb-key'' (Some ''p1'') (Some ''A reply'')))"
      by (simp add: p)
  qed
  then show ?thesis by (simp add: p ex_world_def select_single_def eq_id_def ex_draft_def)
qed

text \<open>
  C8. A reject decision on a pending draft succeeds whatever the configuration is
  (no credential is read): the draft gets status rejected and \<open>decided_at\<close>, every
  other field and every other row stays as it was, no call is made to the publish
  API, and one "rejected" entry is appended to the activity log.
\<close>

theorem reject_effects:
  assumes "method \<noteq> ''OPTIONS''"
    and "truthy draft_id"
    and "select_single draft_id (post_queue w) = Some d"
    and "status d = Pending"
    and "serve_post_to_moltbook e w method draft_id (Some ''reject'') ec et = (res, w')"
  shows "res = Success \<lparr>decision_action = ''rejected'', decision_moltbook_id = None\<rparr>
       \<and> select_single draft_id (post_queue w') = Some (d\<lparr>status := Rejected, decided_at := Some (now e)\<rparr>)
       \<and> post_queue w' = map (\<lambda>r. if eq_id draft_id r then r\<lparr>status := Rejected, decided_at := Some (now e)\<rparr> else r) (post_queue w)
       \<and> outbound w' = outbound w
       \<and> activity_log w' = activity_log w @ [\<lparr>action = ''rejected'', post_queue_id = draft_id, details = NoDetails\<rparr>]
       \<and> agent_config w' = agent_config w \<and> seen_posts w' = seen_posts w"
proof -
  have sel: "select_single draft_id (post_queue (update_rows draft_id (\<lambda>r. r\<lparr>status := Rejected, decided_at := Some (now e)\<rparr>) w))
     = Some (d\<lparr>status := Rejected, decided_at := Some (now e)\<rparr>)"
    using assms(3) by (simp add: select_single_update_rows)
  from assms have w': "w' = log_activity \<lparr>action = ''rejected'', post_queue_id = draft_id, details = NoDetails\<rparr>
                 (update_rows draft_id (\<lambda>r. r\<lparr>status := Rejected, decided_at := Some (now e)\<rparr>) w)"
    and res: "res = Success \<lparr>decision_action = ''rejected'', decision_moltbook_id = None\<rparr>"
    by (auto simp: serve_post_to_moltbook_def respond_def decide_def)
  show ?thesis
    using sel by (simp add: w' res) (simp add: log_activity_def update_rows_def)
qed

theorem reject_effects_witness:
  "fst (serve_post_to_moltbook ex_env_down ex_world_no_config ''POST'' (Some ''d1'') (Some ''reject'') None None)
     = Success \<lparr>decision_action = ''rejected'', decision_moltbook_id = None\<rparr>
   \<and> post_queue (snd (serve_post_to_moltbook ex_env_down ex_world_no_config ''POST'' (Some ''d1'') (Some ''reject'') None None))
     = [ex_draft\<lparr>status := Rejected, decided_at := Some 5000\<rparr>]
   \<and> outbound (snd (serve_post_to_moltbook ex_env_down ex_world_no_config ''POST'' (Some ''d1'') (Some ''reject'') None None)) = []
   \<and> activity_log (snd (serve_post_to_moltbook ex_env_down ex_world_no_config ''POST'' (Some ''d1'') (Some ''reject'') None None))
     = [\<lparr>action = ''rejected'', post_queue_id = Some ''d1'', details = NoDetails\<rparr>]"
proof -
  have h1: "''POST'' \<noteq> ''OPTIONS''" by simp
  have h2: "truthy (Some ''d1'')" by (simp add: truthy_def)
  have h3: "select_single (Some ''d1'') (post_queue ex_world_no_config) = Some ex_draft"
    by (simp add: select_single_def eq_id_def ex_world_no_config_def ex_world_def ex_draft_def)
  have h4: "status ex_draft = Pending" by (simp add: ex_draft_def)
  have h5: "serve_post_to_moltbook ex_env_down ex_world_no_config ''POST'' (Some ''d1'') (Some ''reject'') None None
     = (fst (serve_post_to_moltbook ex_env_down ex_world_no_config ''POST'' (Some ''d1'') (Some ''reject'') None None),
        snd (serve_post_to_moltbook ex_env_down ex_world_no_config ''POST'' (Some ''d1'') (Some ''reject'') None None))"
    by simp
  have n: "now ex_env_down = 5000" by (simp add: ex_env_down_def ex_env_def)
  have q: "post_queue ex_world_no_config = [ex_draft]" "outbound ex_world_no_config = []"
     "activity_log ex_world_no_config = []"
    by (simp_all add: ex_world_no_config_def ex_world_def)
  have e: "eq_id (Some ''d1'') ex_draft" by (simp add: eq_id_def ex_draft_def)
  show ?thesis
    using reject_effects [OF h1 h2 h3 h4 h5] by (simp add: n q e)
qed

text \<open>
  C7, as the claim states it, fails: an approve decision that carries replacement
  content ends in status edited, not approved.
\<close>

theorem approve_with_content_is_edited:
  "fst (serve_post_to_moltbook ex_env ex_world ''POST'' (Some ''d1'') (Some ''approve'') (Some ''Rewritten'') None)
     = Success \<lparr>decision_action = ''edited'', decision_moltbook_id = Some ''m1''\<rparr>
   \<and> map status (post_queue (snd (serve_post_to_moltbook ex_env ex_world ''POST'' (Some ''d1'')
        (Some ''approve'') (Some ''Rewritten'') None))) = [Edited]"
  by (simp add: decide_defs ex_defs Let_def)

text \<open>
  C7, amended. A successful approve or edit decision was taken on a pending draft;
  it sets \<open>decided_at\<close> and \<open>posted_at\<close> and records the remote id of the publish
  response in the column of the draft's type. The status does not follow the action
  literal: it is edited, with \<open>final_content\<close> the content that was published, when
  a non-empty \<open>edited_content\<close> or \<open>edited_title\<close> came with the request, and
  approved with no \<open>final_content\<close> otherwise.
\<close>

theorem decision_success_effects:
  assumes "serve_post_to_moltbook e w method draft_id act ec et = (Success r, w')"
    and "act \<noteq> Some ''reject''"
  shows "\<exists>d d' k. select_single draft_id (post_queue w) = Some d \<and> status d = Pending
       \<and> body_json (publish e (publish_request k d (or_else et (title d)) (or_else ec (content d))))
           = JsonId (decision_moltbook_id r)
       \<and> select_single draft_id (post_queue w') = Some d'
       \<and> status d' = (if truthy ec \<or> truthy et then Edited else Approved)
       \<and> final_content d' = (if truthy ec \<or> truthy et then or_else ec (content d) else None)
       \<and> decided_at d' = Some (now e) \<and> posted_at d' = Some (now e)
       \<and> (case decision_moltbook_id r of None \<Rightarrow> moltbook_post_id d' = moltbook_post_id d \<and> moltbook_comment_id d' = moltbook_comment_id d
           | Some i \<Rightarrow> if dtype d = Post then moltbook_post_id d' = Some i \<and> moltbook_comment_id d' = moltbook_comment_id d
                        else moltbook_comment_id d' = Some i \<and> moltbook_post_id d' = moltbook_post_id d)
       \<and> d' = set_remote_id (dtype d) (decision_moltbook_id r)
                (d\<lparr>status := (if truthy ec \<or> truthy et then Edited else Approved),
                   final_content := (if truthy ec \<or> truthy et then or_else ec (content d) else None),
                   decided_at := Some (now e), posted_at := Some (now e)\<rparr>)"
proof -
  from assms(1) have d: "decide e w draft_id act ec et = (Inr r, w')"
    by (auto simp: serve_post_to_moltbook_def respond_def split: if_splits prod.splits sum.splits)
  then obtain d where sel: "select_single draft_id (post_queue w) = Some d" and st: "status d = Pending"
    by (auto simp: decide_def split: if_splits option.splits)
  from d sel st assms(2) obtain c k where c: "agent_config w = Some c" "api_key c = Some k" "k \<noteq> []"
    by (auto simp: decide_def split: if_splits option.splits)
  let ?req = "publish_request k d (or_else et (title d)) (or_else ec (content d))"
  let ?f = "\<lambda>r'. set_remote_id (dtype d) (decision_moltbook_id r)
                (r'\<lparr>status := (if truthy ec \<or> truthy et then Edited else Approved),
                   final_content := (if truthy ec \<or> truthy et then or_else ec (content d) else None),
                   decided_at := Some (now e), posted_at := Some (now e)\<rparr>)"
  from d sel st assms(2) c have j: "body_json (publish e ?req) = JsonId (decision_moltbook_id r)"
    and w': "post_queue w' = post_queue (update_rows draft_id ?f (w\<lparr>outbound := outbound w @ [PublishCall ?req]\<rparr>))"
    by (auto simp: decide_def fetch_publish_def Let_def split: if_splits json_body.splits)
  have "select_single draft_id (post_queue w') = map_option ?f (select_single draft_id (post_queue (w\<lparr>outbound := outbound w @ [PublishCall ?req]\<rparr>)))"
    unfolding w' by (rule select_single_update_rows) simp
  then have s': "select_single draft_id (post_queue w') = Some (?f d)"
    using sel by simp
  show ?thesis
    apply (rule exI[of _ d], rule exI[of _ "?f d"], rule exI[of _ k])
    using sel st j s'
    by (simp add: set_remote_id_def split: option.splits)
qed

theorem decision_success_effects_witness:
  "\<exists>d'. select_single (Some ''d1'')
          (post_queue (snd (serve_post_to_moltbook ex_env ex_world ''POST'' (Some ''d1'')
             (Some ''edit'') (Some ''Rewritten'') None))) = Some d'
      \<and> status d' = Edited \<and> final_content d' = Some ''Rewritten''
      \<and> decided_at d' = Some 5000 \<and> posted_at d' = Some 5000
      \<and> moltbook_comment_id d' = Some ''m1''"
proof -
  have h1: "serve_post_to_moltbook ex_env ex_world ''POST'' (Some ''d1'') (Some ''edit'') (Some ''Rewritten'') None
     = (Success \<lparr>decision_action = ''edited'', decision_moltbook_id = Some ''m1''\<rparr>,
        snd (serve_post_to_moltbook ex_env ex_world ''POST'' (Some ''d1'') (Some ''edit'') (Some ''Rewritten'') None))"
    by (simp add: decide_defs ex_defs Let_def)
  have h2: "Some ''edit'' \<noteq> Some ''reject''" by simp
  have sel: "select_single (Some ''d1'') (post_queue ex_world) = Some ex_draft"
    by (simp add: select_single_def eq_id_def ex_world_def ex_draft_def)
  have n: "now ex_env = 5000" by (simp add: ex_env_def)
  have t: "dtype ex_draft = Reply" "content ex_draft = Some ''A reply''"
    by (simp_all add: ex_draft_def)
  from decision_success_effects [OF h1 h2] sel
  show ?thesis
    by (auto simp: n t truthy_def or_else_def)
qed

section \<open>Properties of the regeneration handler\<close>

lemmas regenerate_defs = serve_regenerate_def respond_def regenerate_def regenerate_content_def
  previousAttempts_def openaiChat_def insert_draft_def new_row_def select_single_def eq_id_def
  truthy_def or_else_def update_rows_def log_activity_def

lemma post_queue_regenerate_content:
  "regenerate_content e d pers n fb prev w = (r, w1) \<Longrightarrow>
     post_queue w1 = post_queue w \<and> activity_log w1 = activity_log w"
  by (auto simp: regenerate_content_def openaiChat_def Let_def
      split: if_splits chat_response.splits option.splits)

lemma insert_draft_Some:
  assumes "insert_draft e r w = (Some d, w')"
  shows "\<exists>i. new_id e (post_queue w) = Some i \<and> i \<notin> row_id ` set (post_queue w)
     \<and> d = new_row i (now e) r \<and> w' = w\<lparr>post_queue := post_queue w @ [d]\<rparr>"
  using assms by (auto simp: insert_draft_def Let_def split: option.splits if_splits)

lemma select_single_mem:
  "select_single i rows = Some d \<Longrightarrow> d \<in> set rows \<and> eq_id i d"
proof -
  assume "select_single i rows = Some d"
  then have "filter (eq_id i) rows = [d]"
    by (auto simp: select_single_def split: list.splits)
  then have "d \<in> set (filter (eq_id i) rows)" by simp
  then show ?thesis by simp
qed

lemma select_single_append_other:
  "\<not> eq_id i d \<Longrightarrow> select_single i (rows @ [d]) = select_single i rows"
  by (simp add: select_single_def)

lemma map_row_id_update_rows:
  assumes "\<And>d. row_id (f d) = row_id d"
  shows "map row_id (post_queue (update_rows i f w)) = map row_id (post_queue w)"
  using assms by (simp add: update_rows_def)

lemma row_ids_update_rows:
  assumes "\<And>d. row_id (f d) = row_id d"
  shows "row_id ` set (post_queue (update_rows i f w)) = row_id ` set (post_queue w)"
  using map_row_id_update_rows[OF assms, of i w] by (metis set_map)

lemma regenerate_success:
  assumes "regenerate e w draft_id feedback = (Inr nd, w')"
  shows "\<exists>d i nc nt. select_single draft_id (post_queue w) = Some d
     \<and> i \<notin> row_id ` set (post_queue w)
     \<and> nd = new_row i (now e)
         \<lparr>ins_type = dtype d, ins_title = or_else nt (title d), ins_content = nc,
          ins_submolt = submolt d, ins_reply_to_post_id = reply_to_post_id d,
          ins_reply_to_comment_id = reply_to_comment_id d, ins_context = ctx d,
          ins_generation_attempt = Some (generation_attempt d + 1),
          ins_root_draft_id = or_else (root_draft_id d) draft_id\<rparr>
     \<and> post_queue w' = map (\<lambda>r. if eq_id draft_id r then r\<lparr>status := Superseded, decided_at := Some (now e)\<rparr> else r) (post_queue w) @ [nd]
     \<and> activity_log w' = activity_log w @
          [\<lparr>action = ''regenerated'', post_queue_id = Some (row_id nd),
            details = RegeneratedDetails draft_id (generation_attempt d + 1) (or_else feedback None)\<rparr>]"
proof -
  from assms obtain d where sel: "select_single draft_id (post_queue w) = Some d"
    by (auto simp: regenerate_def split: if_splits option.splits)
  let ?pers = "case agent_config w of None \<Rightarrow> None | Some c \<Rightarrow> persona c"
  let ?root = "or_else (root_draft_id d) draft_id"
  let ?n = "generation_attempt d + 1"
  obtain rc w1 where rc: "regenerate_content e d ?pers ?n feedback (previousAttempts ?root (post_queue w)) w = (rc, w1)"
    by (cases "regenerate_content e d ?pers ?n feedback (previousAttempts ?root (post_queue w)) w")
  then have q1: "post_queue w1 = post_queue w" and l1: "activity_log w1 = activity_log w"
    using post_queue_regenerate_content by blast+
  from assms sel rc obtain nc nt where rcv: "rc = Inr (nc, nt)"
    by (cases rc) (auto simp: regenerate_def Let_def split: if_splits)
  let ?w2 = "update_rows draft_id (\<lambda>r. r\<lparr>status := Superseded, decided_at := Some (now e)\<rparr>) w1"
  let ?ins = "\<lparr>ins_type = dtype d, ins_title = or_else nt (title d), ins_content = nc,
          ins_submolt = submolt d, ins_reply_to_post_id = reply_to_post_id d,
          ins_reply_to_comment_id = reply_to_comment_id d, ins_context = ctx d,
          ins_generation_attempt = Some ?n, ins_root_draft_id = ?root\<rparr>"
  obtain r3 w3 where ins: "insert_draft e ?ins ?w2 = (r3, w3)"
    by (cases "insert_draft e ?ins ?w2")
  from assms sel rc rcv ins have r3: "r3 = Some nd"
    and w': "w' = log_activity \<lparr>action = ''regenerated'', post_queue_id = Some (row_id nd),
            details = RegeneratedDetails draft_id ?n (or_else feedback None)\<rparr> w3"
    by (auto simp: regenerate_def Let_def split: if_splits option.splits)
  from insert_draft_Some[OF ins[unfolded r3]] obtain i where
    i: "i \<notin> row_id ` set (post_queue ?w2)" "nd = new_row i (now e) ?ins"
       "w3 = ?w2\<lparr>post_queue := post_queue ?w2 @ [nd]\<rparr>"
    by blast
  have ids: "row_id ` set (post_queue ?w2) = row_id ` set (post_queue w)"
    using row_ids_update_rows[of "\<lambda>r. r\<lparr>status := Superseded, decided_at := Some (now e)\<rparr>" draft_id w1]
    by (simp add: q1)
  show ?thesis
    apply (rule exI[of _ d], rule exI[of _ i], rule exI[of _ nc], rule exI[of _ nt])
    using sel i(2,3) i(1)[unfolded ids]
    by (simp add: w' log_activity_def update_rows_def q1 l1)
qed

lemma serve_regenerate_Success:
  "serve_regenerate e w method draft_id feedback = (Success nd, w') \<Longrightarrow>
     regenerate e w draft_id feedback = (Inr nd, w')"
  by (auto simp: serve_regenerate_def respond_def split: if_splits prod.splits sum.splits)

lemma regenerate_source_superseded:
  assumes "regenerate e w draft_id feedback = (Inr nd, w')"
    and "select_single draft_id (post_queue w) = Some d"
  shows "select_single draft_id (post_queue w')
           = Some (d\<lparr>status := Superseded, decided_at := Some (now e)\<rparr>)"
proof -
  from regenerate_success[OF assms(1)] assms(2) obtain i ins where
    i: "i \<notin> row_id ` set (post_queue w)" and nd: "nd = new_row i (now e) ins"
    and q: "post_queue w' = map (\<lambda>r. if eq_id draft_id r then r\<lparr>status := Superseded, decided_at := Some (now e)\<rparr> else r) (post_queue w) @ [nd]"
    by auto
  from select_single_mem[OF assms(2)] have "d \<in> set (post_queue w)" "eq_id draft_id d" by simp_all
  with i have "draft_id \<noteq> Some i" by (auto simp: eq_id_def)
  then have ne: "\<not> eq_id draft_id nd" by (auto simp: nd eq_id_def new_row_def)
  have "select_single draft_id (post_queue (update_rows draft_id (\<lambda>r. r\<lparr>status := Superseded, decided_at := Some (now e)\<rparr>) w))
     = Some (d\<lparr>status := Superseded, decided_at := Some (now e)\<rparr>)"
    using assms(2) by (simp add: select_single_update_rows)
  then show ?thesis
    by (simp add: q select_single_append_other[OF ne] update_rows_def)
qed

text \<open>
  C3, as the claim states it, fails: the supersede write has no guard. Regenerating
  from the rejected draft \<open>d1\<close> overwrites its terminal status with superseded.
\<close>

theorem regenerate_overwrites_rejected:
  "map status (post_queue ex_world_rejected) = [Rejected]
   \<and> map row_id (post_queue (snd (serve_regenerate ex_env ex_world_rejected ''POST'' (Some ''d1'') None)))
       = [''d1'', ''nn'']
   \<and> map status (post_queue (snd (serve_regenerate ex_env ex_world_rejected ''POST'' (Some ''d1'') None)))
       = [Superseded, Pending]"
  by (simp add: regenerate_defs ex_world_rejected_def ex_defs Let_def)

text \<open>
  C3, amended. Whatever the status of the source draft, pending or terminal, a
  regeneration that succeeds sets the source draft's status to superseded and its
  \<open>decided_at\<close> to the current time.
\<close>

theorem regenerate_supersedes_any_status:
  assumes "serve_regenerate e w method draft_id feedback = (Success nd, w')"
  shows "\<exists>d. select_single draft_id (post_queue w) = Some d
       \<and> select_single draft_id (post_queue w')
           = Some (d\<lparr>status := Superseded, decided_at := Some (now e)\<rparr>)"
proof -
  from assms have r: "regenerate e w draft_id feedback = (Inr nd, w')"
    by (rule serve_regenerate_Success)
  then obtain d where sel: "select_single draft_id (post_queue w) = Some d"
    using regenerate_success by blast
  with regenerate_source_superseded[OF r sel] show ?thesis by blast
qed

theorem regenerate_supersedes_any_status_witness:
  "select_single (Some ''d1'') (post_queue ex_world_rejected)
      = Some (ex_draft\<lparr>status := Rejected, decided_at := Some 2000\<rparr>)
   \<and> select_single (Some ''d1'')
        (post_queue (snd (serve_regenerate ex_env ex_world_rejected ''POST'' (Some ''d1'') None)))
      = Some (ex_draft\<lparr>status := Superseded, decided_at := Some 5000\<rparr>)"
proof -
  have h: "serve_regenerate ex_env ex_world_rejected ''POST'' (Some ''d1'') None
     = (Success (new_row ''nn'' 5000
          \<lparr>ins_type = Reply, ins_title = None, ins_content = Some ''yes'',
           ins_submolt = Some ''general'', ins_reply_to_post_id = Some ''p1'',
           ins_reply_to_comment_id = None,
           ins_context = \<lparr>original_post = Some ex_post, generated_at = 1000, trigger = None\<rparr>,
           ins_generation_attempt = Some 1, ins_root_draft_id = Some ''d1''\<rparr>),
        snd (serve_regenerate ex_env ex_world_rejected ''POST'' (Some ''d1'') None))"
    by (simp add: regenerate_defs ex_world_rejected_def ex_defs Let_def)
  have sel: "select_single (Some ''d1'') (post_queue ex_world_rejected)
      = Some (ex_draft\<lparr>status := Rejected, decided_at := Some 2000\<rparr>)"
    by (simp add: select_single_def eq_id_def ex_world_rejected_def ex_world_def ex_draft_def)
  have n: "now ex_env = 5000" by (simp add: ex_env_def)
  from regenerate_supersedes_any_status [OF h] sel show ?thesis
    by (auto simp: n)
qed

text \<open>
  C4. A successful regeneration of a draft \<open>d\<close> inserts a draft whose attempt number
  is that of \<open>d\<close> plus one, whose root is the root of \<open>d\<close> (the id of \<open>d\<close> when \<open>d\<close> has
  none), and whose type, reply target and context are those of \<open>d\<close>; \<open>d\<close> is marked
  superseded, and one "regenerated" entry that names the id of \<open>d\<close>, the attempt
  number and the feedback (null when none was given) is appended to the activity log.
\<close>

theorem regenerate_lineage:
  assumes "serve_regenerate e w method draft_id feedback = (Success nd, w')"
  shows "\<exists>d. select_single draft_id (post_queue w) = Some d
       \<and> generation_attempt nd = generation_attempt d + 1
       \<and> root_draft_id nd = (if truthy (root_draft_id d) then root_draft_id d else draft_id)
       \<and> dtype nd = dtype d
       \<and> reply_to_post_id nd = reply_to_post_id d
       \<and> reply_to_comment_id nd = reply_to_comment_id d
       \<and> ctx nd = ctx d
       \<and> post_queue w' =
            map (\<lambda>r. if eq_id draft_id r then r\<lparr>status := Superseded, decided_at := Some (now e)\<rparr> else r)
              (post_queue w) @ [nd]
       \<and> select_single draft_id (post_queue w')
            = Some (d\<lparr>status := Superseded, decided_at := Some (now e)\<rparr>)
       \<and> activity_log w' = activity_log w @
            [\<lparr>action = ''regenerated'', post_queue_id = Some (row_id nd),
              details = RegeneratedDetails draft_id (generation_attempt d + 1)
                          (if truthy feedback then feedback else None)\<rparr>]"
proof -
  from assms have r: "regenerate e w draft_id feedback = (Inr nd, w')"
    by (rule serve_regenerate_Success)
  from regenerate_success[OF r] obtain d i nc nt where
    sel: "select_single draft_id (post_queue w) = Some d"
    and nd: "nd = new_row i (now e)
         \<lparr>ins_type = dtype d, ins_title = or_else nt (title d), ins_content = nc,
          ins_submolt = submolt d, ins_reply_to_post_id = reply_to_post_id d,
          ins_reply_to_comment_id = reply_to_comment_id d, ins_context = ctx d,
          ins_generation_attempt = Some (generation_attempt d + 1),
          ins_root_draft_id = or_else (root_draft_id d) draft_id\<rparr>"
    and q: "post_queue w' = map (\<lambda>r. if eq_id draft_id r then r\<lparr>status := Superseded, decided_at := Some (now e)\<rparr> else r) (post_queue w) @ [nd]"
    and l: "activity_log w' = activity_log w @
          [\<lparr>action = ''regenerated'', post_queue_id = Some (row_id nd),
            details = RegeneratedDetails draft_id (generation_attempt d + 1) (or_else feedback None)\<rparr>]"
    by blast
  have f: "generation_attempt nd = generation_attempt d + 1"
      "root_draft_id nd = (if truthy (root_draft_id d) then root_draft_id d else draft_id)"
      "dtype nd = dtype d" "reply_to_post_id nd = reply_to_post_id d"
      "reply_to_comment_id nd = reply_to_comment_id d" "ctx nd = ctx d"
    by (simp_all add: nd new_row_def or_else_def)
  have fb: "or_else feedback None = (if truthy feedback then feedback else None)"
    by (simp add: or_else_def)
  show ?thesis
    apply (rule exI[of _ d])
    using sel f q l[unfolded fb] regenerate_source_superseded[OF r sel]
    by simp
qed

theorem regenerate_lineage_witness:
  "\<exists>d2. fst (serve_regenerate ex_env ex_world ''POST'' (Some ''d1'') (Some ''too formal'')) = Success d2
     \<and> generation_attempt d2 = 1 \<and> root_draft_id d2 = Some ''d1'' \<and> dtype d2 = Reply
     \<and> reply_to_post_id d2 = Some ''p1'' \<and> ctx d2 = ctx ex_draft
     \<and> post_queue (snd (serve_regenerate ex_env ex_world ''POST'' (Some ''d1'') (Some ''too formal'')))
         = [ex_draft\<lparr>status := Superseded, decided_at := Some 5000\<rparr>, d2]
     \<and> activity_log (snd (serve_regenerate ex_env ex_world ''POST'' (Some ''d1'') (Some ''too formal'')))
         = [\<lparr>action = ''regenerated'', post_queue_id = Some (row_id d2),
             details = RegeneratedDetails (Some ''d1'') 1 (Some ''too formal'')\<rparr>]"
proof -
  let ?d2 = "new_row ''nn'' 5000
          \<lparr>ins_type = Reply, ins_title = None, ins_content = Some ''yes'',
           ins_submolt = Some ''general'', ins_reply_to_post_id = Some ''p1'',
           ins_reply_to_comment_id = None,
           ins_context = \<lparr>original_post = Some ex_post, generated_at = 1000, trigger = None\<rparr>,
           ins_generation_attempt = Some 1, ins_root_draft_id = Some ''d1''\<rparr>"
  have f: "fst (serve_regenerate ex_env ex_world ''POST'' (Some ''d1'') (Some ''too formal'')) = Success ?d2"
    by (simp add: regenerate_defs ex_defs Let_def)
  have h: "serve_regenerate ex_env ex_world ''POST'' (Some ''d1'') (Some ''too formal'')
     = (Success ?d2, snd (serve_regenerate ex_env ex_world ''POST'' (Some ''d1'') (Some ''too formal'')))"
    by (metis f prod.collapse)
  have sel: "select_single (Some ''d1'') (post_queue ex_world) = Some ex_draft"
    by (simp add: select_single_def eq_id_def ex_world_def ex_draft_def)
  have n: "now ex_env = 5000" by (simp add: ex_env_def)
  have w: "post_queue ex_world = [ex_draft]" "activity_log ex_world = []"
    by (simp_all add: ex_world_def)
  have e: "eq_id (Some ''d1'') ex_draft" by (simp add: eq_id_def ex_draft_def)
  have d: "generation_attempt ex_draft = 0" "root_draft_id ex_draft = Some ''d1''"
     "dtype ex_draft = Reply" "reply_to_post_id ex_draft = Some ''p1''"
    by (simp_all add: ex_draft_def)
  from regenerate_lineage [OF h] sel show ?thesis
    apply (intro exI[of _ ?d2])
    by (auto simp: f n w e d truthy_def)
qed

section \<open>Properties of the scheduled poll\<close>

lemma startsWith_iff: "startsWith s p \<longleftrightarrow> (\<exists>suf. s = p @ suf)"
  by (induction s p rule: startsWith.induct) auto

lemma includes_str_iff: "includes_str s p \<longleftrightarrow> (\<exists>pre suf. s = pre @ p @ suf)"
proof (induction s)
  case Nil
  then show ?case by auto
next
  case (Cons c cs)
  show ?case
  proof
    assume "includes_str (c # cs) p"
    then consider "startsWith (c # cs) p" | "includes_str cs p" by auto
    then show "\<exists>pre suf. c # cs = pre @ p @ suf"
    proof cases
      case 1
      then obtain suf where "c # cs = p @ suf" by (auto simp: startsWith_iff)
      then have "c # cs = [] @ p @ suf" by simp
      then show ?thesis by blast
    next
      case 2
      with Cons obtain pre suf where "cs = pre @ p @ suf" by blast
      then have "c # cs = (c # pre) @ p @ suf" by simp
      then show ?thesis by blast
    qed
  next
    assume "\<exists>pre suf. c # cs = pre @ p @ suf"
    then obtain pre suf where e: "c # cs = pre @ p @ suf" by blast
    show "includes_str (c # cs) p"
    proof (cases pre)
      case Nil
      with e have "startsWith (c # cs) p" by (auto simp: startsWith_iff)
      then show ?thesis by simp
    next
      case (Cons a pre')
      with e have "cs = pre' @ p @ suf" by simp
      with Cons.IH have "includes_str cs p" by blast
      then show ?thesis by simp
    qed
  qed
qed

lemma checkRelevance_eq:
  "checkRelevance e p cfg w =
     (case gen e (CheckRelevance (topics cfg) p) of
        ChatFail s t \<Rightarrow> Inl (OpenAIError s t)
      | ChatOk r \<Rightarrow> Inr (includes_str (toLowerCase r) ''yes''),
      w\<lparr>outbound := outbound w @ [ChatCall (CheckRelevance (topics cfg) p)]\<rparr>)"
  by (simp add: checkRelevance_def openaiChat_def Let_def split: chat_response.splits)

lemma mark_seen_frame [simp]:
  "outbound (mark_seen i w) = outbound w" "post_queue (mark_seen i w) = post_queue w"
  "agent_config (mark_seen i w) = agent_config w" "activity_log (mark_seen i w) = activity_log w"
  "set (seen_posts (mark_seen i w)) = insert i (set (seen_posts w))"
  by (auto simp: mark_seen_def)

lemma relevance_loop_trace:
  "relevance_loop e cfg ps acc w = (res, w') \<Longrightarrow>
     \<exists>cs. outbound w' = outbound w @ cs
       \<and> set cs \<subseteq> (\<lambda>p. ChatCall (CheckRelevance (topics cfg) p)) ` set ps
       \<and> (\<forall>p r. ChatCall (CheckRelevance (topics cfg) p) \<in> set cs \<longrightarrow>
              gen e (CheckRelevance (topics cfg) p) = ChatOk r \<longrightarrow> post_id p \<in> set (seen_posts w'))
       \<and> set (seen_posts w) \<subseteq> set (seen_posts w')
       \<and> post_queue w' = post_queue w \<and> agent_config w' = agent_config w
       \<and> activity_log w' = activity_log w
       \<and> (\<forall>reply. res = Inr reply \<longrightarrow>
             set reply \<subseteq> set acc \<union> {p \<in> set ps. \<exists>r. gen e (CheckRelevance (topics cfg) p) = ChatOk r
                                        \<and> includes_str (toLowerCase r) ''yes''})"
proof (induction ps arbitrary: acc w)
  case Nil
  then show ?case by auto
next
  case (Cons p ps)
  let ?c = "ChatCall (CheckRelevance (topics cfg) p)"
  let ?w1 = "w\<lparr>outbound := outbound w @ [?c]\<rparr>"
  show ?case
  proof (cases "gen e (CheckRelevance (topics cfg) p)")
    case (ChatFail s t)
    with Cons.prems have "res = Inl (OpenAIError s t)" "w' = ?w1"
      by (simp_all add: checkRelevance_eq)
    with ChatFail show ?thesis
      by (intro exI[of _ "[?c]"]) auto
  next
    case (ChatOk r)
    let ?rel = "includes_str (toLowerCase r) ''yes''"
    let ?acc = "if ?rel then acc @ [p] else acc"
    from ChatOk Cons.prems have
      "relevance_loop e cfg ps ?acc (mark_seen (post_id p) ?w1) = (res, w')"
      by (simp add: checkRelevance_eq)
    from Cons.IH[OF this] obtain cs where
      o: "outbound w' = outbound w @ ?c # cs"
      and sub: "set cs \<subseteq> (\<lambda>p. ChatCall (CheckRelevance (topics cfg) p)) ` set ps"
      and seen: "\<forall>p r. ChatCall (CheckRelevance (topics cfg) p) \<in> set cs \<longrightarrow>
              gen e (CheckRelevance (topics cfg) p) = ChatOk r \<longrightarrow> post_id p \<in> set (seen_posts w')"
      and mono: "insert (post_id p) (set (seen_posts w)) \<subseteq> set (seen_posts w')"
      and fr: "post_queue w' = post_queue w" "agent_config w' = agent_config w"
        "activity_log w' = activity_log w"
      and rep: "\<forall>reply. res = Inr reply \<longrightarrow>
             set reply \<subseteq> set ?acc \<union> {p \<in> set ps. \<exists>r. gen e (CheckRelevance (topics cfg) p) = ChatOk r
                                        \<and> includes_str (toLowerCase r) ''yes''}"
      by auto
    show ?thesis
    proof (intro exI[of _ "?c # cs"] conjI)
      show "outbound w' = outbound w @ ?c # cs" by (rule o)
      show "set (?c # cs) \<subseteq> (\<lambda>p. ChatCall (CheckRelevance (topics cfg) p)) ` set (p # ps)"
        using sub by auto
      show "\<forall>q r. ChatCall (CheckRelevance (topics cfg) q) \<in> set (?c # cs) \<longrightarrow>
              gen e (CheckRelevance (topics cfg) q) = ChatOk r \<longrightarrow> post_id q \<in> set (seen_posts w')"
        using seen mono by auto
      show "set (seen_posts w) \<subseteq> set (seen_posts w')" using mono by auto
      show "\<forall>reply. res = Inr reply \<longrightarrow>
             set reply \<subseteq> set acc \<union> {q \<in> set (p # ps). \<exists>r. gen e (CheckRelevance (topics cfg) q) = ChatOk r
                                        \<and> includes_str (toLowerCase r) ''yes''}"
        using rep ChatOk by (auto split: if_splits)
    qed (use fr in auto)
  qed
qed

lemma frame_refl [simp]: "frame P w w"
  by (simp add: frame_def)

lemma frame_trans: "frame P w w1 \<Longrightarrow> frame P w1 w2 \<Longrightarrow> frame P w w2"
  by (auto simp: frame_def)

lemma frame_mono: "frame P w w' \<Longrightarrow> (\<And>c. P c \<Longrightarrow> Q c) \<Longrightarrow> frame Q w w'"
  by (auto simp: frame_def list_all_iff)

lemma frame_update_rows [simp]: "frame P w (update_rows i f w)"
  by (simp add: frame_def update_rows_def)

lemma frame_log_activity [simp]: "frame P w (log_activity en w)"
  by (simp add: frame_def log_activity_def)

lemma frame_insert_draft: "insert_draft e r w = (res, w') \<Longrightarrow> frame P w w'"
  by (auto simp: insert_draft_def frame_def Let_def split: option.splits if_splits)

lemma frame_openaiChat: "openaiChat e r w = (res, w') \<Longrightarrow> P (ChatCall r) \<Longrightarrow> frame P w w'"
  by (auto simp: openaiChat_def frame_def Let_def split: chat_response.splits)

lemma frame_postToMoltbook: "postToMoltbook e q k w = (res, w') \<Longrightarrow> frame is_publish w w'"
proof -
  assume a: "postToMoltbook e q k w = (res, w')"
  show ?thesis
  proof (cases "select_single (Some q) (post_queue w)")
    case None
    with a show ?thesis by (simp add: postToMoltbook_def)
  next
    case (Some d)
    let ?r = "publish_request k d (title d) (or_else (final_content d) (content d))"
    let ?w1 = "w\<lparr>outbound := outbound w @ [PublishCall ?r]\<rparr>"
    have f1: "frame is_publish w ?w1" by (simp add: frame_def is_publish_def)
    from a Some have "w' = ?w1 \<or> (\<exists>f en. w' = log_activity en (update_rows (Some q) f ?w1))"
      by (auto simp: postToMoltbook_def fetch_publish_def split: json_body.splits if_splits)
    then have "frame is_publish ?w1 w'"
      by (auto intro: frame_trans[OF frame_update_rows frame_log_activity])
    with f1 show ?thesis by (rule frame_trans)
  qed
qed

lemma post_times_update_rows:
  assumes "\<And>d. dtype (f d) = dtype d" "\<And>d. created_at (f d) = created_at d"
  shows "post_times (post_queue (update_rows i f w)) = post_times (post_queue w)"
proof -
  have "post_times (map (\<lambda>d. if eq_id i d then f d else d) rows) = post_times rows" for rows
    using assms by (induction rows) (auto simp: post_times_def)
  then show ?thesis by (simp add: update_rows_def)
qed

lemma dtype_set_remote_id [simp]: "dtype (set_remote_id ty m r) = dtype r"
  by (simp add: set_remote_id_def split: option.splits)

lemma created_at_set_remote_id [simp]: "created_at (set_remote_id ty m r) = created_at r"
  by (simp add: set_remote_id_def split: option.splits)

lemma post_times_log_activity [simp]: "post_times (post_queue (log_activity en w)) = post_times (post_queue w)"
  by (simp add: log_activity_def)

lemma post_times_postToMoltbook:
  "postToMoltbook e q k w = (res, w') \<Longrightarrow> post_times (post_queue w') = post_times (post_queue w)"
  by (auto simp: postToMoltbook_def fetch_publish_def post_times_update_rows
      split: option.splits json_body.splits if_splits)

lemma post_times_openaiChat:
  "openaiChat e r w = (res, w') \<Longrightarrow> post_queue w' = post_queue w"
  by (auto simp: openaiChat_def Let_def split: chat_response.splits)

lemma post_times_insert_reply:
  "insert_draft e r w = (res, w') \<Longrightarrow> ins_type r = Reply \<Longrightarrow>
     post_times (post_queue w') = post_times (post_queue w)"
  by (auto simp: insert_draft_def Let_def post_times_def new_row_def split: option.splits if_splits)

lemma reply_loop_frame:
  "reply_loop e cfg k ps drafts w = (res, w') \<Longrightarrow>
     frame (is_reply_call ps) w w' \<and> post_times (post_queue w') = post_times (post_queue w)"
proof (induction ps arbitrary: drafts w)
  case Nil
  then show ?case by simp
next
  case (Cons p ps)
  have up: "is_reply_call ps c \<Longrightarrow> is_reply_call (p # ps) c" for c
    by (auto simp: is_reply_call_def split: call.splits chat_request.splits)
  have pub: "is_publish c \<Longrightarrow> is_reply_call (p # ps) c" for c
    by (auto simp: is_reply_call_def is_publish_def split: call.splits)
  obtain r1 w1 where g: "generateReply e p cfg w = (r1, w1)"
    by (cases "generateReply e p cfg w")
  then have f1: "frame (is_reply_call (p # ps)) w w1" and q1: "post_queue w1 = post_queue w"
    by (auto simp: generateReply_def is_reply_call_def intro: frame_openaiChat dest: post_times_openaiChat)
  show ?case
  proof (cases r1)
    case (Inl er)
    with Cons.prems g have "w' = w1" by simp
    with f1 q1 show ?thesis by simp
  next
    case (Inr c)
    obtain r2 w2 where i: "insert_draft e (reply_insert e p c) w1 = (r2, w2)"
      by (cases "insert_draft e (reply_insert e p c) w1")
    then have f2: "frame (is_reply_call (p # ps)) w1 w2"
      and q2: "post_times (post_queue w2) = post_times (post_queue w1)"
      by (auto intro: frame_insert_draft dest: post_times_insert_reply simp: reply_insert_def)
    note f12 = frame_trans[OF f1 f2]
    show ?thesis
    proof (cases r2)
      case None
      with Cons.prems g Inr i have "reply_loop e cfg k ps drafts w2 = (res, w')" by simp
      from Cons.IH[OF this] f12 q1 q2 show ?thesis
        by (auto intro: frame_trans frame_mono[OF _ up])
    next
      case (Some inserted)
      let ?w3 = "update_rows (Some (row_id inserted)) (\<lambda>r. r\<lparr>root_draft_id := Some (row_id inserted)\<rparr>) w2"
      let ?w4 = "log_activity \<lparr>action = ''generated'', post_queue_id = Some (row_id inserted),
                            details = GeneratedDetails (post_id p)\<rparr> ?w3"
      have f4: "frame (is_reply_call (p # ps)) w ?w4"
        by (rule frame_trans[OF f12]) (rule frame_trans[OF frame_update_rows frame_log_activity])
      have q4: "post_times (post_queue ?w4) = post_times (post_queue w)"
        by (simp add: post_times_update_rows q1 q2)
      show ?thesis
      proof (cases "auto_post cfg")
        case False
        with Cons.prems g Inr i Some have "reply_loop e cfg k ps (drafts @ [inserted]) ?w4 = (res, w')"
          by (simp add: Let_def)
        from Cons.IH[OF this] f4 q4 show ?thesis
          by (auto intro: frame_trans frame_mono[OF _ up])
      next
        case True
        obtain r5 w5 where pm: "postToMoltbook e (row_id inserted) k ?w4 = (r5, w5)"
          by (cases "postToMoltbook e (row_id inserted) k ?w4")
        from frame_postToMoltbook[OF pm] have f5: "frame (is_reply_call (p # ps)) ?w4 w5"
          by (rule frame_mono) (rule pub)
        from post_times_postToMoltbook[OF pm] q4 have q5: "post_times (post_queue w5) = post_times (post_queue w)"
          by simp
        note f05 = frame_trans[OF f4 f5]
        show ?thesis
        proof (cases r5)
          case (Inl er)
          with Cons.prems g Inr i Some True pm have "w' = w5" by (simp add: Let_def)
          with f05 q5 show ?thesis by simp
        next
          case (Inr u)
          with Cons.prems g \<open>r1 = Inr c\<close> i Some True pm
          have "reply_loop e cfg k ps (drafts @ [inserted]) w5 = (res, w')" by (simp add: Let_def)
          from Cons.IH[OF this] f05 q5 show ?thesis
            by (auto intro: frame_trans frame_mono[OF _ up])
        qed
      qed
    qed
  qed
qed

lemma new_calls_append: "outbound w' = outbound w @ cs \<Longrightarrow> new_calls w w' = cs"
  by (simp add: new_calls_def)

lemma generateOriginalPost_call:
  "generateOriginalPost e cfg w = (res, w') \<Longrightarrow>
     w' = w\<lparr>outbound := outbound w @
            [ChatCall (GenerateOriginalPost (persona cfg) (index_opt (target_submolts cfg) (random_index e)))]\<rparr>"
  by (auto simp: generateOriginalPost_def openaiChat_def Let_def
      split: chat_response.splits option.splits)

lemma original_post_step_calls:
  assumes "original_post_step e cfg k drafts w = (res, w')"
  shows "\<exists>cs. outbound w' = outbound w @ cs
       \<and> list_all (\<lambda>c. is_original_call c \<or> is_publish c) cs
       \<and> ((\<exists>c\<in>set cs. is_original_call c) \<longleftrightarrow>
            cooldown_met (minutesSinceLastPost (now e) (post_queue w)) (post_frequency_minutes cfg))
       \<and> seen_posts w' = seen_posts w \<and> agent_config w' = agent_config w
       \<and> (cooldown_met (minutesSinceLastPost (now e) (post_queue w)) (post_frequency_minutes cfg) \<or> w' = w)"
proof (cases "cooldown_met (minutesSinceLastPost (now e) (post_queue w)) (post_frequency_minutes cfg)")
  case False
  with assms have "w' = w" by (simp add: original_post_step_def)
  with False show ?thesis by simp
next
  case True
  let ?c = "ChatCall (GenerateOriginalPost (persona cfg) (index_opt (target_submolts cfg) (random_index e)))"
  let ?Q = "\<lambda>c. is_original_call c \<or> is_publish c"
  obtain r1 w1 where g: "generateOriginalPost e cfg w = (r1, w1)"
    by (cases "generateOriginalPost e cfg w")
  then have w1: "w1 = w\<lparr>outbound := outbound w @ [?c]\<rparr>" by (rule generateOriginalPost_call)
  have oc: "is_original_call ?c" by (simp add: is_original_call_def)
  have "frame ?Q w1 w'"
  proof (cases r1)
    case (Inl er)
    with assms True g show ?thesis by (simp add: original_post_step_def)
  next
    case (Inr op)
    obtain r2 w2 where i: "insert_draft e (original_insert e op) w1 = (r2, w2)"
      by (cases "insert_draft e (original_insert e op) w1")
    then have f2: "frame ?Q w1 w2" by (rule frame_insert_draft)
    show ?thesis
    proof (cases r2)
      case None
      with assms True g Inr i have "w' = w2" by (simp add: original_post_step_def)
      with f2 show ?thesis by simp
    next
      case (Some inserted)
      let ?w3 = "update_rows (Some (row_id inserted)) (\<lambda>r. r\<lparr>root_draft_id := Some (row_id inserted)\<rparr>) w2"
      have f3: "frame ?Q w1 ?w3" by (rule frame_trans[OF f2 frame_update_rows])
      show ?thesis
      proof (cases "auto_post cfg")
        case False
        with assms True g Inr i Some have "w' = ?w3" by (simp add: original_post_step_def Let_def)
        with f3 show ?thesis by simp
      next
        case ap: True
        obtain r4 w4 where pm: "postToMoltbook e (row_id inserted) k ?w3 = (r4, w4)"
          by (cases "postToMoltbook e (row_id inserted) k ?w3")
        from frame_postToMoltbook[OF pm] have f4: "frame ?Q ?w3 w4"
          by (rule frame_mono) simp
        from assms True g Inr i Some ap pm have "w' = w4"
          by (cases r4) (simp_all add: original_post_step_def Let_def)
        with frame_trans[OF f3 f4] show ?thesis by simp
      qed
    qed
  qed
  then obtain cs where cs: "outbound w' = outbound w1 @ cs" "list_all ?Q cs"
    and fr: "seen_posts w' = seen_posts w1" "agent_config w' = agent_config w1"
    by (auto simp: frame_def)
  show ?thesis
    using cs fr True oc by (intro exI[of _ "?c # cs"]) (simp add: w1)
qed



lemma lastPostTime_post_times:
  "lastPostTime rows = (case post_times rows of [] \<Rightarrow> None | t # ts \<Rightarrow> Some (fold max ts t))"
  by (simp add: lastPostTime_def post_times_def split: list.splits)

lemma poll_trace:
  assumes "poll e w = (res, w')" and "agent_config w = Some cfg"
  shows "\<exists>cs1 cs2 cs3 ps. outbound w' = outbound w @ cs1 @ cs2 @ cs3
       \<and> set cs1 \<subseteq> (\<lambda>p. ChatCall (CheckRelevance (topics cfg) p)) ` set (take 5 (newPosts e cfg w))
       \<and> (\<forall>p r. ChatCall (CheckRelevance (topics cfg) p) \<in> set cs1 \<longrightarrow>
              gen e (CheckRelevance (topics cfg) p) = ChatOk r \<longrightarrow> post_id p \<in> set (seen_posts w'))
       \<and> list_all (is_reply_call ps) cs2
       \<and> set ps \<subseteq> {p \<in> set (take 5 (newPosts e cfg w)).
                     \<exists>r. gen e (CheckRelevance (topics cfg) p) = ChatOk r
                        \<and> includes_str (toLowerCase r) ''yes''}
       \<and> list_all (\<lambda>c. is_original_call c \<or> is_publish c) cs3
       \<and> set (seen_posts w) \<subseteq> set (seen_posts w')
       \<and> (\<forall>s. res = Inr s \<longrightarrow>
            ((\<exists>c\<in>set cs3. is_original_call c) \<longleftrightarrow>
               cooldown_met (minutesSinceLastPost (now e) (post_queue w)) (post_frequency_minutes cfg)))
       \<and> (cooldown_met (minutesSinceLastPost (now e) (post_queue w)) (post_frequency_minutes cfg)
            \<or> post_times (post_queue w') = post_times (post_queue w))"
proof (cases "truthy (openai_api_key e) \<and> truthy (api_key cfg)")
  case False
  with assms have "w' = w" "\<exists>er. res = Inl er"
    by (auto simp: poll_def truthy_def split: option.splits if_splits)
  then show ?thesis
    by (intro exI[of _ "[]"]) auto
next
  case True
  then obtain k where k: "api_key cfg = Some k" "k \<noteq> []"
    by (auto simp: truthy_def split: option.splits)
  let ?ps = "take 5 (newPosts e cfg w)"
  let ?rel = "{p \<in> set ?ps. \<exists>r. gen e (CheckRelevance (topics cfg) p) = ChatOk r
                        \<and> includes_str (toLowerCase r) ''yes''}"
  obtain r1 w1 where l1: "relevance_loop e cfg ?ps [] w = (r1, w1)"
    by (cases "relevance_loop e cfg ?ps [] w")
  from relevance_loop_trace[OF l1] obtain cs1 where
    o1: "outbound w1 = outbound w @ cs1"
    and sub1: "set cs1 \<subseteq> (\<lambda>p. ChatCall (CheckRelevance (topics cfg) p)) ` set ?ps"
    and seen1: "\<forall>p r. ChatCall (CheckRelevance (topics cfg) p) \<in> set cs1 \<longrightarrow>
              gen e (CheckRelevance (topics cfg) p) = ChatOk r \<longrightarrow> post_id p \<in> set (seen_posts w1)"
    and mono1: "set (seen_posts w) \<subseteq> set (seen_posts w1)"
    and q1: "post_queue w1 = post_queue w"
    and rep1: "\<forall>reply. r1 = Inr reply \<longrightarrow> set reply \<subseteq> ?rel"
    by auto
  show ?thesis
  proof (cases r1)
    case (Inl er)
    with assms True k l1 have "w' = w1" "res = Inl er"
      by (auto simp: poll_def)
    with o1 sub1 seen1 mono1 q1 show ?thesis
      by (intro exI[of _ cs1] exI[of _ "[]"]) auto
  next
    case (Inr postsToReply)
    with rep1 have rel: "set postsToReply \<subseteq> ?rel" by simp
    obtain r2 w2 where l2: "reply_loop e cfg k postsToReply [] w1 = (r2, w2)"
      by (cases "reply_loop e cfg k postsToReply [] w1")
    from reply_loop_frame[OF l2] obtain cs2 where
      o2: "outbound w2 = outbound w1 @ cs2" and p2: "list_all (is_reply_call postsToReply) cs2"
      and s2: "seen_posts w2 = seen_posts w1"
      and t2: "post_times (post_queue w2) = post_times (post_queue w1)"
      by (auto simp: frame_def)
    show ?thesis
    proof (cases r2)
      case (Inl er)
      with assms True k l1 \<open>r1 = Inr postsToReply\<close> l2 have "w' = w2" "res = Inl er"
        by (auto simp: poll_def)
      with o1 o2 sub1 seen1 mono1 p2 s2 rel t2 q1 show ?thesis
        by (intro exI[of _ cs1] exI[of _ cs2] exI[of _ "[]"] exI[of _ postsToReply]) auto
    next
      case (Inr drafts)
      obtain r3 w3 where l3: "original_post_step e cfg k drafts w2 = (r3, w3)"
        by (cases "original_post_step e cfg k drafts w2")
      from original_post_step_calls[OF l3] obtain cs3 where
        o3: "outbound w3 = outbound w2 @ cs3"
        and p3: "list_all (\<lambda>c. is_original_call c \<or> is_publish c) cs3"
        and c3: "(\<exists>c\<in>set cs3. is_original_call c) \<longleftrightarrow>
            cooldown_met (minutesSinceLastPost (now e) (post_queue w2)) (post_frequency_minutes cfg)"
        and s3: "seen_posts w3 = seen_posts w2"
        and n3: "cooldown_met (minutesSinceLastPost (now e) (post_queue w2)) (post_frequency_minutes cfg) \<or> w3 = w2"
        by auto
      have m: "minutesSinceLastPost (now e) (post_queue w2) = minutesSinceLastPost (now e) (post_queue w)"
        using t2 q1 by (simp add: minutesSinceLastPost_def lastPostTime_post_times)
      with c3 have c3': "(\<exists>c\<in>set cs3. is_original_call c) \<longleftrightarrow>
            cooldown_met (minutesSinceLastPost (now e) (post_queue w)) (post_frequency_minutes cfg)"
        by simp
      from n3 m t2 q1 have n3': "cooldown_met (minutesSinceLastPost (now e) (post_queue w)) (post_frequency_minutes cfg)
            \<or> post_times (post_queue w3) = post_times (post_queue w)"
        by auto
      from assms True k l1 \<open>r1 = Inr postsToReply\<close> l2 Inr l3 have "w' = w3"
        by (cases r3) (auto simp: poll_def)
      with o1 o2 o3 sub1 seen1 mono1 p2 s2 s3 rel p3 c3' n3' show ?thesis
        by (intro exI[of _ cs1] exI[of _ cs2] exI[of _ cs3] exI[of _ postsToReply]) auto
    qed
  qed
qed

lemmas poll_defs = serve_poll_def respond_def poll_def newPosts_def relevance_loop.simps
  reply_loop.simps fetch_posts.simps checkRelevance_def openaiChat_def generateReply_def
  generateOriginalPost_def postToMoltbook_def original_post_step_def cooldown_met_def
  minutesSinceLastPost_def lastPostTime_def reply_insert_def original_insert_def insert_draft_def
  new_row_def mark_seen_def toLowerCase_def toLowerCase_char_def index_opt_def
  select_single_def eq_id_def truthy_def or_else_def update_rows_def log_activity_def
  fetch_publish_def publish_request_def set_remote_id_def

lemmas ex_poll_defs = ex_post_draft_def ex_world_poll_def ex_env_later_def ex_defs


lemma serve_poll_cases:
  assumes "serve_poll e w method = (res, w')"
  shows "w' = w \<or> (\<exists>cfg r. agent_config w = Some cfg \<and> poll e w = (r, w')
            \<and> (\<forall>s. res = Success s \<longrightarrow> r = Inr s))"
proof (cases "method = ''OPTIONS''")
  case True
  with assms show ?thesis by (simp add: serve_poll_def)
next
  case False
  show ?thesis
  proof (cases "agent_config w")
    case None
    with assms False show ?thesis
      by (auto simp: serve_poll_def respond_def poll_def split: if_splits)
  next
    case (Some cfg)
    obtain r w1 where p: "poll e w = (r, w1)" by (cases "poll e w")
    with assms False have "w1 = w'" "\<forall>s. res = Success s \<longrightarrow> r = Inr s"
      by (auto simp: serve_poll_def respond_def split: sum.splits)
    with Some p show ?thesis by auto
  qed
qed

lemma new_calls_same [simp]: "new_calls w w = []"
  by (simp add: new_calls_def)




lemma rows_ext_refl [simp]: "rows_ext w w"
  by (simp add: rows_ext_def)

























lemma is_reply_call_GenerateReply:
  "is_reply_call ps (ChatCall (GenerateReply pers p)) \<longleftrightarrow> p \<in> set ps"
  by (simp add: is_reply_call_def)

text \<open>
  C10. The relevance filter answers true exactly when the response of the
  text-generation service, put in lower case, contains the letters \<open>yes\<close> somewhere,
  and false for every other response text. In a run, a reply is generated for a post
  only when the response to its relevance check contained that token.
\<close>

theorem relevance_fail_closed:
  "(gen e (CheckRelevance (topics cfg) p) = ChatOk r \<longrightarrow>
      fst (checkRelevance e p cfg w) = Inr (\<exists>pre suf. toLowerCase r = pre @ ''yes'' @ suf))
   \<and> (serve_poll e w method = (res, w') \<and> agent_config w = Some cfg \<and>
        ChatCall (GenerateReply pers p) \<in> set (new_calls w w')
      \<longrightarrow> (\<exists>r pre suf. gen e (CheckRelevance (topics cfg) p) = ChatOk r
             \<and> toLowerCase r = pre @ ''yes'' @ suf))"
proof (intro conjI impI)
  assume "gen e (CheckRelevance (topics cfg) p) = ChatOk r"
  then show "fst (checkRelevance e p cfg w) = Inr (\<exists>pre suf. toLowerCase r = pre @ ''yes'' @ suf)"
    by (simp add: checkRelevance_eq includes_str_iff)
next
  assume a: "serve_poll e w method = (res, w') \<and> agent_config w = Some cfg \<and>
        ChatCall (GenerateReply pers p) \<in> set (new_calls w w')"
  then have ne: "w' \<noteq> w" by auto
  with serve_poll_cases[of e w "method" res w'] a obtain rr where p: "poll e w = (rr, w')"
    by auto
  from a have cfg: "agent_config w = Some cfg" by simp
  from poll_trace[OF p cfg] obtain cs1 cs2 cs3 ps where
    o: "outbound w' = outbound w @ cs1 @ cs2 @ cs3"
    and c1: "set cs1 \<subseteq> (\<lambda>p. ChatCall (CheckRelevance (topics cfg) p)) ` set (take 5 (newPosts e cfg w))"
    and c2: "list_all (is_reply_call ps) cs2"
    and rel: "set ps \<subseteq> {p \<in> set (take 5 (newPosts e cfg w)).
                     \<exists>r. gen e (CheckRelevance (topics cfg) p) = ChatOk r
                        \<and> includes_str (toLowerCase r) ''yes''}"
    and c3: "list_all (\<lambda>c. is_original_call c \<or> is_publish c) cs3"
    by blast
  have n: "new_calls w w' = cs1 @ cs2 @ cs3" using o by (rule new_calls_append)
  let ?g = "ChatCall (GenerateReply pers p)"
  from c1 have "?g \<notin> set cs1" by auto
  moreover from c3 have "?g \<notin> set cs3"
    by (auto simp: list_all_iff is_original_call_def is_publish_def)
  ultimately have "?g \<in> set cs2" using a by (simp add: n)
  with c2 have "p \<in> set ps" by (auto simp: list_all_iff is_reply_call_GenerateReply)
  with rel show "\<exists>r pre suf. gen e (CheckRelevance (topics cfg) p) = ChatOk r
             \<and> toLowerCase r = pre @ ''yes'' @ suf"
    by (auto simp: includes_str_iff)
qed

theorem relevance_fail_closed_witness:
  "fst (checkRelevance (ex_env\<lparr>gen := (\<lambda>r. ChatOk ''Eyes only'')\<rparr>) ex_post ex_config ex_world) = Inr True
   \<and> fst (checkRelevance (ex_env\<lparr>gen := (\<lambda>r. ChatOk ''probably'')\<rparr>) ex_post ex_config ex_world) = Inr False
   \<and> (\<exists>r pre suf. gen ex_env_later (CheckRelevance (topics ex_config) ex_post) = ChatOk r
             \<and> toLowerCase r = pre @ ''yes'' @ suf)"
proof (intro conjI)
  have g: "gen (ex_env\<lparr>gen := (\<lambda>r. ChatOk ''Eyes only'')\<rparr>) (CheckRelevance (topics ex_config) ex_post)
      = ChatOk ''Eyes only''" by simp
  have y: "includes_str (toLowerCase ''Eyes only'') ''yes''"
    by (simp add: toLowerCase_def toLowerCase_char_def)
  from relevance_fail_closed [THEN conjunct1, THEN mp, OF g, of ex_world] y
  show "fst (checkRelevance (ex_env\<lparr>gen := (\<lambda>r. ChatOk ''Eyes only'')\<rparr>) ex_post ex_config ex_world) = Inr True"
    by (simp add: includes_str_iff)
next
  have g: "gen (ex_env\<lparr>gen := (\<lambda>r. ChatOk ''probably'')\<rparr>) (CheckRelevance (topics ex_config) ex_post)
      = ChatOk ''probably''" by simp
  have y: "\<not> includes_str (toLowerCase ''probably'') ''yes''"
    by (simp add: toLowerCase_def toLowerCase_char_def)
  from relevance_fail_closed [THEN conjunct1, THEN mp, OF g, of ex_world] y
  show "fst (checkRelevance (ex_env\<lparr>gen := (\<lambda>r. ChatOk ''probably'')\<rparr>) ex_post ex_config ex_world) = Inr False"
    by (simp add: includes_str_iff)
next
  have o: "outbound (snd (serve_poll ex_env_later ex_world_poll ''POST''))
     = [ChatCall (CheckRelevance [''agents''] ex_post),
        ChatCall (GenerateReply (Some ''A curious agent'') ex_post)]"
    by (simp add: poll_defs ex_poll_defs Let_def)
  have h: "serve_poll ex_env_later ex_world_poll ''POST''
       = (fst (serve_poll ex_env_later ex_world_poll ''POST''), snd (serve_poll ex_env_later ex_world_poll ''POST''))
     \<and> agent_config ex_world_poll = Some ex_config
     \<and> ChatCall (GenerateReply (Some ''A curious agent'') ex_post)
         \<in> set (new_calls ex_world_poll (snd (serve_poll ex_env_later ex_world_poll ''POST'')))"
    by (simp add: new_calls_def o) (simp add: ex_world_poll_def)
  show "\<exists>r pre suf. gen ex_env_later (CheckRelevance (topics ex_config) ex_post) = ChatOk r
             \<and> toLowerCase r = pre @ ''yes'' @ suf"
    by (rule relevance_fail_closed [THEN conjunct2, THEN mp, OF h])
qed

lemma mark_seen_idem: "mark_seen i (mark_seen i w) = mark_seen i w"
  by (simp add: mark_seen_def)

lemma mark_seen_noop: "i \<in> set (seen_posts w) \<Longrightarrow> mark_seen i w = w"
  by (simp add: mark_seen_def)

lemma poll_relevance_calls:
  assumes "serve_poll e w method = (res, w')"
  shows "set (seen_posts w) \<subseteq> set (seen_posts w')
     \<and> (\<forall>t p r. ChatCall (CheckRelevance t p) \<in> set (new_calls w w')
            \<and> gen e (CheckRelevance t p) = ChatOk r \<longrightarrow> post_id p \<in> set (seen_posts w'))
     \<and> (\<forall>t p. post_id p \<in> set (seen_posts w) \<longrightarrow>
            ChatCall (CheckRelevance t p) \<notin> set (new_calls w w'))"
proof (cases "w' = w")
  case True
  then show ?thesis by simp
next
  case False
  with serve_poll_cases[OF assms] obtain cfg rr where
    cfg: "agent_config w = Some cfg" and p: "poll e w = (rr, w')"
    by auto
  from poll_trace[OF p cfg] obtain cs1 cs2 cs3 ps where
    o: "outbound w' = outbound w @ cs1 @ cs2 @ cs3"
    and c1: "set cs1 \<subseteq> (\<lambda>p. ChatCall (CheckRelevance (topics cfg) p)) ` set (take 5 (newPosts e cfg w))"
    and seen: "\<forall>p r. ChatCall (CheckRelevance (topics cfg) p) \<in> set cs1 \<longrightarrow>
              gen e (CheckRelevance (topics cfg) p) = ChatOk r \<longrightarrow> post_id p \<in> set (seen_posts w')"
    and c2: "list_all (is_reply_call ps) cs2"
    and c3: "list_all (\<lambda>c. is_original_call c \<or> is_publish c) cs3"
    and mono: "set (seen_posts w) \<subseteq> set (seen_posts w')"
    by blast
  have n: "new_calls w w' = cs1 @ cs2 @ cs3" using o by (rule new_calls_append)
  have in1: "ChatCall (CheckRelevance t q) \<in> set cs1"
    if "ChatCall (CheckRelevance t q) \<in> set (new_calls w w')" for t q
  proof -
    from c2 have "ChatCall (CheckRelevance t q) \<notin> set cs2"
      by (auto simp: list_all_iff is_reply_call_def)
    moreover from c3 have "ChatCall (CheckRelevance t q) \<notin> set cs3"
      by (auto simp: list_all_iff is_original_call_def is_publish_def)
    ultimately show ?thesis using that by (simp add: n)
  qed
  have top: "t = topics cfg \<and> q \<in> set (take 5 (newPosts e cfg w))"
    if "ChatCall (CheckRelevance t q) \<in> set cs1" for t q
    using that c1 by auto
  have new: "post_id q \<notin> set (seen_posts w)" if "q \<in> set (take 5 (newPosts e cfg w))" for q
  proof -
    from that have "q \<in> set (newPosts e cfg w)" by (rule in_set_takeD)
    then show ?thesis by (simp add: newPosts_def)
  qed
  show ?thesis
  proof (intro conjI allI impI)
    show "set (seen_posts w) \<subseteq> set (seen_posts w')" by (rule mono)
  next
    fix t q r
    assume a: "ChatCall (CheckRelevance t q) \<in> set (new_calls w w') \<and> gen e (CheckRelevance t q) = ChatOk r"
    then have i: "ChatCall (CheckRelevance t q) \<in> set cs1" using in1 by blast
    with top have "t = topics cfg" by blast
    with i a seen show "post_id q \<in> set (seen_posts w')" by blast
  next
    fix t and q :: moltbook_post
    assume s: "post_id q \<in> set (seen_posts w)"
    show "ChatCall (CheckRelevance t q) \<notin> set (new_calls w w')"
    proof
      assume "ChatCall (CheckRelevance t q) \<in> set (new_calls w w')"
      then have "ChatCall (CheckRelevance t q) \<in> set cs1" by (rule in1)
      then have "q \<in> set (take 5 (newPosts e cfg w))" using top by blast
      with new s show False by blast
    qed
  qed
qed

text \<open>
  C6, as the claim states it, fails: the identifier is written to the ledger after
  the relevance check has returned. When the check itself fails (the text-generation
  service answers 503), the run ends with that error, the post \<open>p1\<close> is not in the
  ledger, and the next run evaluates the same post again.
\<close>

theorem failed_relevance_check_not_marked:
  "fst (serve_poll ex_env_gen_down ex_world_poll ''POST'') = Failure (OpenAIError 503 ''unavailable'')
   \<and> seen_posts (snd (serve_poll ex_env_gen_down ex_world_poll ''POST'')) = []
   \<and> outbound (snd (serve_poll ex_env_gen_down
        (snd (serve_poll ex_env_gen_down ex_world_poll ''POST'')) ''POST''))
      = [ChatCall (CheckRelevance [''agents''] ex_post), ChatCall (CheckRelevance [''agents''] ex_post)]"
  by (simp add: poll_defs ex_env_gen_down_def ex_poll_defs Let_def)

text \<open>
  C6, amended. In a scheduled run the ledger never loses an identifier; every post
  whose relevance check was made in the run and returned a judgment, whatever the
  judgment, is in the ledger when the run ends, also when the run fails later; a
  post whose identifier is in the ledger when a run starts is not evaluated by that
  run; and marking an identifier that is already in the ledger changes nothing.
\<close>

theorem seen_ledger:
  "(serve_poll e w method = (res, w') \<longrightarrow>
       set (seen_posts w) \<subseteq> set (seen_posts w')
     \<and> (\<forall>t p r. ChatCall (CheckRelevance t p) \<in> set (new_calls w w')
            \<and> gen e (CheckRelevance t p) = ChatOk r \<longrightarrow> post_id p \<in> set (seen_posts w'))
     \<and> (\<forall>t p. post_id p \<in> set (seen_posts w) \<longrightarrow>
            ChatCall (CheckRelevance t p) \<notin> set (new_calls w w')))
   \<and> mark_seen i (mark_seen i w0) = mark_seen i w0
   \<and> (i \<in> set (seen_posts w0) \<longrightarrow> mark_seen i w0 = w0)"
  using poll_relevance_calls[of e w "method" res w'] mark_seen_idem[of i w0] mark_seen_noop[of i w0]
  by blast

theorem seen_ledger_witness:
  "post_id ex_post \<in> set (seen_posts (snd (serve_poll ex_env_later ex_world_poll ''POST'')))
   \<and> ChatCall (CheckRelevance [''agents''] ex_post)
       \<notin> set (new_calls (snd (serve_poll ex_env_later ex_world_poll ''POST''))
                (snd (serve_poll ex_env_later (snd (serve_poll ex_env_later ex_world_poll ''POST'')) ''POST'')))"
proof -
  let ?w1 = "snd (serve_poll ex_env_later ex_world_poll ''POST'')"
  let ?w2 = "snd (serve_poll ex_env_later ?w1 ''POST'')"
  have h1: "serve_poll ex_env_later ex_world_poll ''POST''
      = (fst (serve_poll ex_env_later ex_world_poll ''POST''), ?w1)" by simp
  have h2: "serve_poll ex_env_later ?w1 ''POST'' = (fst (serve_poll ex_env_later ?w1 ''POST''), ?w2)"
    by simp
  have o: "outbound ?w1
     = [ChatCall (CheckRelevance [''agents''] ex_post),
        ChatCall (GenerateReply (Some ''A curious agent'') ex_post)]"
    by (simp add: poll_defs ex_poll_defs Let_def)
  have c: "ChatCall (CheckRelevance [''agents''] ex_post) \<in> set (new_calls ex_world_poll ?w1)
      \<and> gen ex_env_later (CheckRelevance [''agents''] ex_post) = ChatOk ''yes''"
    by (simp add: new_calls_def o) (simp add: ex_world_poll_def ex_env_later_def ex_env_def)
  from seen_ledger [THEN conjunct1, THEN mp, OF h1, THEN conjunct2, THEN conjunct1, rule_format, OF c]
  have s: "post_id ex_post \<in> set (seen_posts ?w1)" .
  from seen_ledger [THEN conjunct1, THEN mp, OF h2, THEN conjunct2, THEN conjunct2, rule_format, OF s]
  have "ChatCall (CheckRelevance [''agents''] ex_post) \<notin> set (new_calls ?w1 ?w2)" .
  with s show ?thesis by simp
qed

text \<open>
  C5. With auto-post on, the publisher is called for the draft just created, and a
  successful publish ends in status posted with the remote id recorded.
\<close>

lemma auto_post_success_posted:
  "fst (serve_poll ex_env_later ex_world_auto ''POST'')
       = Success \<lparr>posts_checked = 1, drafts_created = 1, auto_posted = True\<rparr>
   \<and> map (\<lambda>d. (row_id d, status d, moltbook_comment_id d))
        (post_queue (snd (serve_poll ex_env_later ex_world_auto ''POST'')))
       = [(''d0'', Pending, None), (''nn'', Posted, Some ''m1'')]"
  by (simp add: poll_defs ex_world_auto_def ex_poll_defs Let_def)

text \<open>
  C5 at a failing publish. The publish API answers 500 with a JSON body: the draft
  stays pending with no remote id and only the "generated" entry is logged, but the
  run answers with success and \<open>auto_posted = True\<close>; the failure reaches no caller.
\<close>

theorem auto_post_failure_swallowed:
  "ok (publish ex_env_later_down (CreateComment ''mb-key'' (Some ''p1'') (Some ''yes''))) = False
   \<and> fst (serve_poll ex_env_later_down ex_world_auto ''POST'')
       = Success \<lparr>posts_checked = 1, drafts_created = 1, auto_posted = True\<rparr>
   \<and> map (\<lambda>d. (row_id d, status d, moltbook_comment_id d))
        (post_queue (snd (serve_poll ex_env_later_down ex_world_auto ''POST'')))
       = [(''d0'', Pending, None), (''nn'', Pending, None)]
   \<and> outbound (snd (serve_poll ex_env_later_down ex_world_auto ''POST''))
       = [ChatCall (CheckRelevance [''agents''] ex_post),
          ChatCall (GenerateReply (Some ''A curious agent'') ex_post),
          PublishCall (CreateComment ''mb-key'' (Some ''p1'') (Some ''yes''))]
   \<and> map action (activity_log (snd (serve_poll ex_env_later_down ex_world_auto ''POST'')))
       = [''generated'']"
  by (simp add: poll_defs ex_world_auto_def ex_env_later_down_def ex_poll_defs Let_def)

end
